theory Spec2Isabelle
  imports Complex_Main
begin

section \<open>Python strings and dictionaries\<close>

text \<open>
  The orchestrator (\<^verbatim>\<open>src/orchestrator.py\<close>) keeps one shared dictionary and moves text
  between it and eight roles. Strings are modelled as \<^typ>\<open>string\<close> over ASCII: the
  library operations below are the ASCII behaviour of \<^verbatim>\<open>str.strip\<close>, \<^verbatim>\<open>str.upper\<close>,
  \<^verbatim>\<open>str.lower\<close>, \<^verbatim>\<open>str.startswith\<close>, the \<^verbatim>\<open>in\<close> test on strings and \<^verbatim>\<open>str.split\<close>.
\<close>

definition is_space :: "char \<Rightarrow> bool" where
  "is_space c \<longleftrightarrow> c \<in> set [CHR 0x09, CHR 0x0A, CHR 0x0B, CHR 0x0C, CHR 0x0D,
                            CHR 0x1C, CHR 0x1D, CHR 0x1E, CHR 0x1F, CHR 0x20]"

definition strip :: "string \<Rightarrow> string" where
  "strip s = rev (dropWhile is_space (rev (dropWhile is_space s)))"

definition lower_letters :: string where
  "lower_letters = ''abcdefghijklmnopqrstuvwxyz''"

definition upper_letters :: string where
  "upper_letters = ''ABCDEFGHIJKLMNOPQRSTUVWXYZ''"

definition upper_char :: "char \<Rightarrow> char" where
  "upper_char c = (case map_of (zip lower_letters upper_letters) c of Some u \<Rightarrow> u | None \<Rightarrow> c)"

definition lower_char :: "char \<Rightarrow> char" where
  "lower_char c = (case map_of (zip upper_letters lower_letters) c of Some l \<Rightarrow> l | None \<Rightarrow> c)"

definition upper :: "string \<Rightarrow> string" where
  "upper s = map upper_char s"

definition lower :: "string \<Rightarrow> string" where
  "lower s = map lower_char s"

fun startswith :: "string \<Rightarrow> string \<Rightarrow> bool" where
  "startswith [] s = True"
| "startswith (p # ps) [] = False"
| "startswith (p # ps) (c # cs) = (p = c \<and> startswith ps cs)"

text \<open>\<^verbatim>\<open>sub in s\<close> on strings.\<close>

fun contains :: "string \<Rightarrow> string \<Rightarrow> bool" where
  "contains sub [] = (sub = [])"
| "contains sub (c # cs) = (startswith sub (c # cs) \<or> contains sub cs)"

text \<open>
  \<^verbatim>\<open>s.split(sep)\<close>: \<open>split_at\<close> cuts at the occurrences of a non-empty separator, from
  left to right and without overlap. The source only splits at its two fence literals;
  Python rejects an empty separator with \<^verbatim>\<open>ValueError\<close>, which is the value \<open>None\<close> of
  \<open>py_split\<close>.
\<close>

function split_at :: "string \<Rightarrow> string \<Rightarrow> string list" where
  "split_at sep s =
     (if sep \<noteq> [] \<and> startswith sep s then [] # split_at sep (drop (length sep) s)
      else case s of
             [] \<Rightarrow> [[]]
           | c # cs \<Rightarrow> (case split_at sep cs of [] \<Rightarrow> [[c]] | p # ps \<Rightarrow> (c # p) # ps))"
  by pat_completeness auto
termination
proof (relation "measure (\<lambda>(sep, s). length s)")
  fix sep s :: string
  assume "sep \<noteq> [] \<and> startswith sep s"
  then have "s \<noteq> []" by (cases sep; cases s) auto
  with \<open>sep \<noteq> [] \<and> startswith sep s\<close>
  show "((sep, drop (length sep) s), (sep, s)) \<in> measure (\<lambda>(sep, s). length s)"
    by simp
qed auto

declare split_at.simps [simp del]

definition py_split :: "string \<Rightarrow> string \<Rightarrow> string list option" where
  "py_split sep s = (if sep = [] then None else Some (split_at sep s))"

text \<open>Indexing a list; out of range is Python's \<^verbatim>\<open>IndexError\<close>, the value \<open>None\<close>.\<close>

definition py_index :: "'a list \<Rightarrow> nat \<Rightarrow> 'a option" where
  "py_index xs i = (if i < length xs then Some (xs ! i) else None)"

text \<open>\<^verbatim>\<open>str(n)\<close> for a non-negative integer.\<close>

definition digit_char :: "nat \<Rightarrow> char" where
  "digit_char d = ''0123456789'' ! (d mod 10)"

function str_nat :: "nat \<Rightarrow> string" where
  "str_nat n = (if n < 10 then [digit_char n] else str_nat (n div 10) @ [digit_char (n mod 10)])"
  by pat_completeness auto
termination
  by (relation "measure id") auto

declare str_nat.simps [simp del]

text \<open>
  A Python \<^verbatim>\<open>dict\<close> with string keys is an association list in insertion order, without
  duplicate keys: \<^verbatim>\<open>d[k] = v\<close> replaces the value of an existing key where it stands and
  appends a new key at the end.
\<close>

type_synonym 'v pydict = "(string \<times> 'v) list"

fun dict_set :: "string \<Rightarrow> 'v \<Rightarrow> 'v pydict \<Rightarrow> 'v pydict" where
  "dict_set k v [] = [(k, v)]"
| "dict_set k v ((k', v') # kvs) =
     (if k' = k then (k, v) # kvs else (k', v') # dict_set k v kvs)"

definition dict_get :: "'v pydict \<Rightarrow> string \<Rightarrow> 'v option" where
  "dict_get d k = map_of d k"

definition dict_keys :: "'v pydict \<Rightarrow> string list" where
  "dict_keys d = map fst d"

definition dict_values :: "'v pydict \<Rightarrow> 'v list" where
  "dict_values d = map snd d"

section \<open>The shared project state\<close>

text \<open>
  \<^verbatim>\<open>shared_state\<close> is a dictionary whose keys come and go; every read in the source is a
  \<^verbatim>\<open>get\<close> with a default. Each key is a field that is \<open>None\<close> while the key is absent.
  Floats are exact rationals: every weight of the entropy score is a multiple of one tenth.
\<close>

record project_state =
  status :: "string option"
  code_chunks :: "string pydict option"
  validations :: "string pydict option"
  current_entropy_score :: "rat option"
  current_action :: "string option"
  plan :: "string option"
  success_criteria :: "string option"
  advice :: "string option"
  prompt_integrity :: "string option"
  resource_management :: "string option"
  last_chunk_id :: "string option"
  final_script :: "string option"

text \<open>\<^verbatim>\<open>state.get(key, default)\<close>.\<close>

definition get_or :: "'a option \<Rightarrow> 'a \<Rightarrow> 'a" where
  "get_or v d = (case v of None \<Rightarrow> d | Some x \<Rightarrow> x)"

text \<open>The state that \<^verbatim>\<open>run_orchestration\<close> starts from.\<close>

definition initial_state :: project_state where
  "initial_state =
     \<lparr> status = Some ''STARTING'', code_chunks = Some [], validations = Some [],
       current_entropy_score = None, current_action = None, plan = None,
       success_criteria = None, advice = None, prompt_integrity = None,
       resource_management = None, last_chunk_id = None, final_script = None \<rparr>"


section \<open>The eight roles and their folds\<close>

datatype role = Cube | Wave | Core | Work | Loop | Code | Line | Coin

text \<open>The names the engine gives its agents, and the \<^verbatim>\<open>AGENT_MODELS\<close> table.\<close>

fun agent_name :: "role \<Rightarrow> string" where
  "agent_name Cube = ''CubeOrchestrator''"
| "agent_name Wave = ''WavePromiser''"
| "agent_name Loop = ''LoopAdvisor''"
| "agent_name Core = ''CoreExecutor''"
| "agent_name Work = ''WorkValidator''"
| "agent_name Code = ''CodeComposer''"
| "agent_name Line = ''LineResourceManager''"
| "agent_name Coin = ''CoinRequestSecurer''"

fun agent_model :: "role \<Rightarrow> string" where
  "agent_model Cube = ''cube''"
| "agent_model Core = ''core''"
| "agent_model Loop = ''loop''"
| "agent_model Wave = ''promiser''"
| "agent_model Line = ''line''"
| "agent_model Coin = ''coin''"
| "agent_model Code = ''code''"
| "agent_model Work = ''work''"

definition valid_actions :: "string list" where
  "valid_actions = [''PLAN'', ''EXECUTE'', ''VALIDATE'', ''REFINE'', ''COMPOSE'', ''COMPLETE'']"

text \<open>
  \<^verbatim>\<open>Cube._process_output\<close>. The fold prints a warning when it falls back; the printed
  lines are the second component of the result.
\<close>

definition Cube_process_output :: "string \<Rightarrow> project_state \<Rightarrow> project_state \<times> string list" where
  "Cube_process_output output st =
     (let action = upper (strip output) in
      if action \<notin> set valid_actions
      then (st\<lparr>current_action := Some ''PLAN''\<rparr>,
            [''Warning: Cube returned invalid action '' @ [CHR 0x27] @ action @ [CHR 0x27]
               @ ''. Defaulting to PLAN.''])
      else (st\<lparr>current_action := Some action\<rparr>, []))"

definition Wave_process_output :: "string \<Rightarrow> project_state \<Rightarrow> project_state" where
  "Wave_process_output output st = st\<lparr>success_criteria := Some output\<rparr>"

text \<open>The two fence literals of the source.\<close>

definition fence_open :: string where
  "fence_open = ''```python''"

definition fence_close :: string where
  "fence_close = ''```''"

text \<open>
  \<^verbatim>\<open>output.split("```python")[1].split("```")[0].strip()\<close>, with the exceptions an index
  out of range would raise as \<open>None\<close>.
\<close>

definition fenced_text :: "string \<Rightarrow> string option" where
  "fenced_text output =
     (case py_split fence_open output of
        None \<Rightarrow> None
      | Some pieces \<Rightarrow>
          (case py_index pieces 1 of
             None \<Rightarrow> None
           | Some piece \<Rightarrow>
               (case py_split fence_close piece of
                  None \<Rightarrow> None
                | Some parts \<Rightarrow>
                    (case py_index parts 0 of
                       None \<Rightarrow> None
                     | Some t \<Rightarrow> Some (strip t)))))"

text \<open>\<^verbatim>\<open>Core._process_output\<close>; \<open>None\<close> is an exception leaving the fold.\<close>

definition Core_process_output :: "string \<Rightarrow> project_state \<Rightarrow> project_state option" where
  "Core_process_output output st =
     (if contains fence_open output then
        (case fenced_text output of
           None \<Rightarrow> None
         | Some code_chunk \<Rightarrow>
             (let chunks = get_or (code_chunks st) [];
                  chunk_id = ''chunk_'' @ str_nat (length chunks + 1)
              in Some (st\<lparr>code_chunks := Some (dict_set chunk_id code_chunk chunks),
                          last_chunk_id := Some chunk_id\<rparr>)))
      else Some st)"

text \<open>
  \<^verbatim>\<open>Work._process_output\<close>. \<^verbatim>\<open>setdefault\<close> creates the \<^verbatim>\<open>validations\<close> key when it is
  absent, before anything is tested; \<^verbatim>\<open>if last_chunk_id:\<close> is false for an absent key and
  for the empty string.
\<close>

definition Work_process_output :: "string \<Rightarrow> project_state \<Rightarrow> project_state" where
  "Work_process_output output st =
     (let vals = get_or (validations st) [];
          st1 = st\<lparr>validations := Some vals\<rparr>
      in case last_chunk_id st1 of
           None \<Rightarrow> st1
         | Some cid \<Rightarrow>
             if cid = [] then st1
             else if startswith ''VALID'' output
             then st1\<lparr>validations := Some (dict_set cid ''VALID'' vals)\<rparr>
             else st1\<lparr>validations := Some (dict_set cid (''INVALID - '' @ output) vals),
                      advice := Some (''Validation failed for '' @ cid @ '': '' @ output)\<rparr>)"

definition Loop_process_output :: "string \<Rightarrow> project_state \<Rightarrow> project_state" where
  "Loop_process_output output st =
     (let st1 = (if plan st = None \<or> contains ''refinement'' (lower output)
                 then st\<lparr>plan := Some output\<rparr> else st)
      in st1\<lparr>advice := Some output\<rparr>)"

definition Code_process_output :: "string \<Rightarrow> project_state \<Rightarrow> project_state option" where
  "Code_process_output output st =
     (if contains fence_open output then
        (case fenced_text output of
           None \<Rightarrow> None
         | Some script \<Rightarrow> Some (st\<lparr>final_script := Some script\<rparr>))
      else Some st)"

definition Line_process_output :: "string \<Rightarrow> project_state \<Rightarrow> project_state" where
  "Line_process_output output st = st\<lparr>resource_management := Some output\<rparr>"

definition Coin_process_output :: "string \<Rightarrow> project_state \<Rightarrow> project_state" where
  "Coin_process_output output st = st\<lparr>prompt_integrity := Some output\<rparr>"

text \<open>The dispatch of \<^verbatim>\<open>self._process_output\<close> on the agent's class.\<close>

fun process_output :: "role \<Rightarrow> string \<Rightarrow> project_state \<Rightarrow> project_state option" where
  "process_output Cube output st = Some (fst (Cube_process_output output st))"
| "process_output Wave output st = Some (Wave_process_output output st)"
| "process_output Core output st = Core_process_output output st"
| "process_output Work output st = Some (Work_process_output output st)"
| "process_output Loop output st = Some (Loop_process_output output st)"
| "process_output Code output st = Code_process_output output st"
| "process_output Line output st = Some (Line_process_output output st)"
| "process_output Coin output st = Some (Coin_process_output output st)"

section \<open>Notions of the specification\<close>


text \<open>
  The text after the first occurrence of a marker, and the text before the first occurrence
  of a marker (everything, when the marker does not occur).
\<close>

fun after_first :: "string \<Rightarrow> string \<Rightarrow> string" where
  "after_first sep [] = []"
| "after_first sep (c # cs) =
     (if startswith sep (c # cs) then drop (length sep) (c # cs) else after_first sep cs)"

fun before_first :: "string \<Rightarrow> string \<Rightarrow> string" where
  "before_first sep [] = []"
| "before_first sep (c # cs) =
     (if startswith sep (c # cs) then [] else c # before_first sep cs)"

text \<open>
  The text between the first opening marker and the next closing fence after it, or the
  whole remainder when no closing fence follows.
\<close>

definition text_between_fences :: "string \<Rightarrow> string" where
  "text_between_fences output = before_first fence_close (after_first fence_open output)"

text \<open>
  The text after the first opening marker up to the next opening marker, cut at the first
  closing fence inside that piece, and stripped.
\<close>

definition fenced_piece :: "string \<Rightarrow> string" where
  "fenced_piece output =
     strip (before_first fence_close (before_first fence_open (after_first fence_open output)))"

text \<open>
  A sequence of role folds, each with the output it folds, applied from left to right; an
  exception in one fold ends the sequence with \<open>None\<close>.
\<close>

fun apply_folds :: "(role \<times> string) list \<Rightarrow> project_state \<Rightarrow> project_state option" where
  "apply_folds [] st = Some st"
| "apply_folds ((r, output) # steps) st =
     (case process_output r output st of
        None \<Rightarrow> None
      | Some st' \<Rightarrow> apply_folds steps st')"

text \<open>The keys of the two mappings of a state; an absent mapping has no key.\<close>

definition validation_keys :: "project_state \<Rightarrow> string set" where
  "validation_keys st = set (dict_keys (get_or (validations st) []))"

definition chunk_keys :: "project_state \<Rightarrow> string set" where
  "chunk_keys st = set (dict_keys (get_or (code_chunks st) []))"

text \<open>
  The invariant of the folds: validated ids are chunk ids, and so is the id that
  \<open>last_chunk_id\<close> points to.
\<close>

definition chunk_refs_ok :: "project_state \<Rightarrow> bool" where
  "chunk_refs_ok st \<longleftrightarrow>
     validation_keys st \<subseteq> chunk_keys st \<and> set_option (last_chunk_id st) \<subseteq> chunk_keys st"

section \<open>The entropy estimator\<close>

text \<open>
  \<^verbatim>\<open>round(x, 2)\<close> on exact values: to the nearest hundredth, a tie to the even neighbour.
\<close>

definition round_half_even :: "rat \<Rightarrow> int" where
  "round_half_even x =
     (let f = \<lfloor>x\<rfloor>; d = x - of_int f
      in if d < 1 / 2 then f
         else if 1 / 2 < d then f + 1
         else if even f then f else f + 1)"

definition py_round2 :: "rat \<Rightarrow> rat" where
  "py_round2 x = of_int (round_half_even (x * 100)) / 100"

text \<open>
  \<^verbatim>\<open>calculate_entropy\<close> adds six terms to a score that starts at zero; each definition
  below is one commented block of the source, in the source's order.
\<close>

definition integrity_penalty :: "project_state \<Rightarrow> rat" where
  "integrity_penalty st =
     (let prompt_integrity = get_or (prompt_integrity st) []
      in if \<not> contains ''INTEGRITY OK'' prompt_integrity then 5 / 10 else 0)"

definition resource_penalty :: "project_state \<Rightarrow> rat" where
  "resource_penalty st =
     (let resource_management = get_or (resource_management st) []
      in if contains ''complexity'' (lower resource_management)
            \<or> contains ''scope'' (lower resource_management)
         then (if contains ''reduce'' (lower resource_management)
                  \<or> contains ''manage'' (lower resource_management)
               then 2 / 10 else 4 / 10)
         else 0)"

definition plan_penalty :: "project_state \<Rightarrow> rat" where
  "plan_penalty st = (let plan = get_or (plan st) [] in if plan = [] then 1 else 0)"

definition invalid_chunks :: "project_state \<Rightarrow> nat" where
  "invalid_chunks st =
     length (filter (startswith ''INVALID'') (dict_values (get_or (validations st) [])))"

definition invalid_penalty :: "project_state \<Rightarrow> rat" where
  "invalid_penalty st = of_nat (invalid_chunks st) * (7 / 10)"

definition criteria_penalty :: "project_state \<Rightarrow> rat" where
  "criteria_penalty st =
     (let success_criteria = get_or (success_criteria st) []
      in if success_criteria = [] then 8 / 10 else 0)"

definition action_penalty :: "project_state \<Rightarrow> rat" where
  "action_penalty st =
     (let current_action = get_or (current_action st) []
      in if current_action = ''REFINE'' then 1 / 10
         else if current_action = ''PLAN'' \<and> 0 < length (get_or (code_chunks st) [])
         then 3 / 10
         else 0)"

definition calculate_entropy :: "project_state \<Rightarrow> rat" where
  "calculate_entropy st =
     py_round2 (integrity_penalty st + resource_penalty st + plan_penalty st
                + invalid_penalty st + criteria_penalty st + action_penalty st)"

section \<open>Rendering the instructions\<close>

text \<open>
  The renders format their text with functions of the Python library, which are parameters
  here: the hex digest of SHA-256 (\<^verbatim>\<open>hashlib.sha256(s.encode()).hexdigest()\<close>),
  \<^verbatim>\<open>json.dumps(_, indent=2)\<close> on a dictionary of strings and on the shared state, the text
  of a list of strings inside an f-string, and the float format \<^verbatim>\<open>:.2f\<close>.
\<close>

record pylib =
  sha256_hex :: "string \<Rightarrow> string"
  json_dumps_dict :: "string pydict \<Rightarrow> string"
  json_dumps_state :: "project_state \<Rightarrow> string"
  format_list :: "string list \<Rightarrow> string"
  format_2f :: "rat \<Rightarrow> string"

text \<open>\<^verbatim>\<open>{state.get(key)}\<close> inside an f-string: an absent key prints as \<open>None\<close>.\<close>

definition format_opt :: "string option \<Rightarrow> string" where
  "format_opt v = (case v of None \<Rightarrow> ''None'' | Some s \<Rightarrow> s)"

text \<open>
  The dictionary comprehension of \<^verbatim>\<open>Code._create_meta_prompt\<close>: the items of
  \<^verbatim>\<open>code_chunks\<close> whose key has the verdict \<open>VALID\<close>, in the order of \<^verbatim>\<open>code_chunks\<close>.
\<close>

definition validated_chunks :: "project_state \<Rightarrow> string pydict" where
  "validated_chunks st =
     filter (\<lambda>(k, v). dict_get (get_or (validations st) []) k = Some ''VALID'')
       (get_or (code_chunks st) [])"

definition Cube_status_report :: "pylib \<Rightarrow> string \<Rightarrow> project_state \<Rightarrow> string" where
  "Cube_status_report lib base_prompt st =
       ''\<newline>''
     @ ''Orchestration Goal: ''
     @ base_prompt
     @ ''\<newline>''
     @ ''Current Action: ''
     @ get_or (current_action st) ''INIT''
     @ ''\<newline>''
     @ ''Current Entropy Score: ''
     @ format_2f lib (get_or (current_entropy_score st) 0)
     @ ''\<newline>''
     @ ''Plan: ''
     @ get_or (plan st) ''None yet.''
     @ ''\<newline>''
     @ ''Success Criteria: ''
     @ get_or (success_criteria st) ''None yet.''
     @ ''\<newline>''
     @ ''Valid Chunks: ''
     @ str_nat (length (filter (\<lambda>(k, v). v = ''VALID'') (get_or (validations st) [])))
     @ ''\<newline>''
     @ ''Invalid Chunks: ''
     @ str_nat (length (filter (\<lambda>(k, v). startswith ''INVALID'' v) (get_or (validations st) [])))
     @ ''\<newline>''
     @ ''Last Advice: ''
     @ get_or (advice st) ''None.''
     @ ''\<newline>''
     @ ''Prompt Integrity: ''
     @ get_or (prompt_integrity st) ''Not checked.''
     @ ''\<newline>''
     @ ''Resource Management: ''
     @ get_or (resource_management st) ''Not assessed.''
     @ ''\<newline>''
     @ ''        ''"

definition Cube_create_meta_prompt :: "pylib \<Rightarrow> string \<Rightarrow> project_state \<Rightarrow> string" where
  "Cube_create_meta_prompt lib base_prompt st =
       ''You are 'cube', the supreme orchestrator of a multi-agent system. Your task is to analyze the current state of the project and decide the next optimal action to drive the project towards successfully achieving the 'Orchestration Goal' while minimizing the 'Current Entropy Score'.\<newline>''
     @ ''\<newline>''
     @ ''        Based on the following status report, you must choose one of these actions: 'PLAN', 'EXECUTE', 'VALIDATE', 'REFINE', 'COMPOSE', or 'COMPLETE'.\<newline>''
     @ ''        'COMPLETE' should only be chosen if the 'final_script' is present and seems to meet the 'Success Criteria' and 'Current Entropy Score' is low (e.g., < 0.3).\<newline>''
     @ ''\<newline>''
     @ ''        Status Report:\<newline>''
     @ ''        ''
     @ Cube_status_report lib base_prompt st
     @ ''\<newline>''
     @ ''\<newline>''
     @ ''        Your decision MUST be a single word, representing the chosen action. Do not add any other text.\<newline>''
     @ ''        ''"

definition Wave_create_meta_prompt :: "pylib \<Rightarrow> string \<Rightarrow> project_state \<Rightarrow> string" where
  "Wave_create_meta_prompt lib base_prompt st =
       ''You are 'wave', the promiser. Your task is to define the success criteria for the prompt: '' @ [CHR 0x27]
     @ base_prompt
     @ [CHR 0x27] @ ''.\<newline>''
     @ ''Break it down into a clear, numbered list of concise requirements. Focus on measurable and achievable criteria.\<newline>''
     @ ''Example: 1. Script must be in Python. 2. It must achieve X. 3. It must handle error Y.\<newline>''
     @ ''Current success criteria: ''
     @ get_or (success_criteria st) ''None''
     @ ''. Refine if needed, otherwise re-state.\<newline>''
     @ ''Your output MUST be ONLY the numbered list of success criteria, with no additional conversational text.\<newline>''"

definition Core_create_meta_prompt :: "pylib \<Rightarrow> string \<Rightarrow> project_state \<Rightarrow> string" where
  "Core_create_meta_prompt lib base_prompt st =
       ''You are 'core', the code executor. Your task is to write a single, logical chunk of Python code to help achieve the goal.\<newline>''
     @ ''Goal: ''
     @ base_prompt
     @ ''\<newline>''
     @ ''Success Criteria: ''
     @ format_opt (success_criteria st)
     @ ''\<newline>''
     @ ''Current Code Plan: ''
     @ format_opt (plan st)
     @ ''\<newline>''
     @ ''Existing Chunks: ''
     @ format_list lib (dict_keys (get_or (code_chunks st) []))
     @ ''\<newline>''
     @ ''Advisor's Last Remark: ''
     @ format_opt (advice st)
     @ ''\<newline>''
     @ ''Write the next necessary code chunk. Enclose the code within ```python ... ```.\<newline>''
     @ ''Your output MUST contain ONLY the Python code chunk, formatted strictly within ```python ... ``` tags, with no extra conversational text.\<newline>''"

definition Work_create_meta_prompt :: "pylib \<Rightarrow> string \<Rightarrow> project_state \<Rightarrow> string" where
  "Work_create_meta_prompt lib base_prompt st =
       ''You are 'work', the validator. Analyze the following Python code chunk for correctness, syntax errors, and adherence to the plan and success criteria.\<newline>''
     @ ''Code Chunk ('' @ [CHR 0x27]
     @ get_or (last_chunk_id st) ''None''
     @ [CHR 0x27] @ ''):\<newline>''
     @ get_or (dict_get (get_or (code_chunks st) []) (get_or (last_chunk_id st) ''None'')) ''No new chunk to validate.''
     @ ''\<newline>''
     @ ''\<newline>''
     @ ''Success Criteria: ''
     @ format_opt (success_criteria st)
     @ ''\<newline>''
     @ ''Respond STRICTLY with 'VALID' if it's good, or 'INVALID:' followed by a brief, actionable reason for rejection. Do not include any other text.\<newline>''"

definition Loop_create_meta_prompt :: "pylib \<Rightarrow> string \<Rightarrow> project_state \<Rightarrow> string" where
  "Loop_create_meta_prompt lib base_prompt st =
       ''You are 'loop', the advisor. Review the overall plan, recent progress, and current shared state.\<newline>''
     @ ''Goal: ''
     @ base_prompt
     @ ''\<newline>''
     @ ''Plan: ''
     @ get_or (plan st) ''Not defined yet.''
     @ ''\<newline>''
     @ ''Validated Chunks: ''
     @ format_list lib (map fst (filter (\<lambda>(k, v). v = ''VALID'') (get_or (validations st) [])))
     @ ''\<newline>''
     @ ''Failed Chunks: ''
     @ format_list lib (map fst (filter (\<lambda>(k, v). startswith ''INVALID'' v) (get_or (validations st) [])))
     @ ''\<newline>''
     @ ''Shared State Summary: ''
     @ json_dumps_state lib (st\<lparr>code_chunks := None, validations := None\<rparr>)
     @ ''\<newline>''
     @ ''Based on this, provide a concise, actionable next step or refinement for the plan. If no plan exists, create one. Focus on overcoming obstacles or moving towards completion.\<newline>''
     @ ''Your output MUST be a clear, concise instruction or a refined plan.\<newline>''"

definition Code_create_meta_prompt :: "pylib \<Rightarrow> string \<Rightarrow> project_state \<Rightarrow> string" where
  "Code_create_meta_prompt lib base_prompt st =
       ''You are 'code', the composer. Your task is to assemble the validated code chunks into a single, coherent, and executable Python script.\<newline>''
     @ ''Validated Chunks:\<newline>''
     @ json_dumps_dict lib (validated_chunks st)
     @ ''\<newline>''
     @ ''Success Criteria: ''
     @ format_opt (success_criteria st)
     @ ''\<newline>''
     @ ''Ensure all necessary imports are at the top. Add appropriate function definitions and a main execution block (e.g., `if __name__ == '' @ [CHR 0x22] @ ''__main__'' @ [CHR 0x22] @ '':`). Ensure correct indentation, logical flow, and order for a fully functional script.\<newline>''
     @ ''Enclose the final script within ```python ... ```. Your output MUST contain ONLY the Python script, formatted strictly within ```python ... ``` tags, with no extra conversational text.\<newline>''"

definition Line_create_meta_prompt :: "pylib \<Rightarrow> string \<Rightarrow> project_state \<Rightarrow> string" where
  "Line_create_meta_prompt lib base_prompt st =
       ''You are 'line', the resource manager. Your task is to analyze the current state of the project, including the initial prompt and any progress made, to identify potential complexity, scope creep, or resource inefficiencies.\<newline>''
     @ ''\<newline>''
     @ ''Current Goal: ''
     @ base_prompt
     @ ''\<newline>''
     @ ''Current State: ''
     @ json_dumps_state lib st
     @ ''\<newline>''
     @ ''\<newline>''
     @ ''Based on this, provide a concise assessment of complexity and scope. If any issues are found, suggest specific, actionable adjustments needed to keep the project manageable and efficient. Focus on resource optimization and complexity reduction. If no issues, state 'RESOURCE MANAGEMENT OK'.\<newline>''
     @ ''Your output MUST be a summary of complexity/scope and/or actionable suggestions, or 'RESOURCE MANAGEMENT OK'.\<newline>''"

definition Coin_create_meta_prompt :: "pylib \<Rightarrow> string \<Rightarrow> project_state \<Rightarrow> string" where
  "Coin_create_meta_prompt lib base_prompt st =
       ''You are 'coin', the request securer. Your task is to validate the integrity and safety of the initial prompt and the current shared state. Identify any ambiguities, security vulnerabilities, ethical concerns, or potential for misuse.\<newline>''
     @ ''\<newline>''
     @ ''Initial Prompt: ''
     @ base_prompt
     @ ''\<newline>''
     @ ''Current State: ''
     @ json_dumps_state lib st
     @ ''\<newline>''
     @ ''\<newline>''
     @ ''Based on this analysis, provide a concise integrity report. If there are concerns, list them clearly. If the prompt and state appear sound, state 'INTEGRITY OK'.\<newline>''
     @ ''Your output MUST be a concise integrity report or 'INTEGRITY OK'.\<newline>''"

text \<open>The dispatch of \<^verbatim>\<open>self._create_meta_prompt\<close> on the agent's class.\<close>

fun create_meta_prompt :: "pylib \<Rightarrow> role \<Rightarrow> string \<Rightarrow> project_state \<Rightarrow> string" where
  "create_meta_prompt lib Cube base_prompt st = Cube_create_meta_prompt lib base_prompt st"
| "create_meta_prompt lib Wave base_prompt st = Wave_create_meta_prompt lib base_prompt st"
| "create_meta_prompt lib Core base_prompt st = Core_create_meta_prompt lib base_prompt st"
| "create_meta_prompt lib Work base_prompt st = Work_create_meta_prompt lib base_prompt st"
| "create_meta_prompt lib Loop base_prompt st = Loop_create_meta_prompt lib base_prompt st"
| "create_meta_prompt lib Code base_prompt st = Code_create_meta_prompt lib base_prompt st"
| "create_meta_prompt lib Line base_prompt st = Line_create_meta_prompt lib base_prompt st"
| "create_meta_prompt lib Coin base_prompt st = Coin_create_meta_prompt lib base_prompt st"
text \<open>A state with one validated, one rejected and one unchecked chunk.\<close>

definition three_chunks :: project_state where
  "three_chunks =
     initial_state\<lparr>code_chunks := Some [(''chunk_1'', ''a''), (''chunk_2'', ''b''), (''chunk_3'', ''c'')],
                   validations := Some [(''chunk_1'', ''VALID''), (''chunk_2'', ''INVALID - bad'')]\<rparr>"

section \<open>The fingerprint chain and one role invocation\<close>

definition create_genesis_hash :: "pylib \<Rightarrow> string \<Rightarrow> string" where
  "create_genesis_hash lib prompt = sha256_hex lib prompt"

definition rehash_fragment :: "pylib \<Rightarrow> string \<Rightarrow> string \<Rightarrow> string \<Rightarrow> string" where
  "rehash_fragment lib origin_hash name thought =
     sha256_hex lib (origin_hash @ '':'' @ name @ '':'' @ thought)"

text \<open>
  What the inference service gives back for one request: a JSON body, of which the source
  reads the \<^verbatim>\<open>response\<close> field when there is one, or an \<^verbatim>\<open>aiohttp.ClientError\<close> with its
  message. The service is outside the program, so its answers are an arbitrary function of
  the cycle and the role asked.
\<close>

datatype reply = Response "string option" | ClientError string

definition response_text_of :: "role \<Rightarrow> reply \<Rightarrow> string" where
  "response_text_of r answer =
     (case answer of
        Response field \<Rightarrow> strip (get_or field [])
      | ClientError e \<Rightarrow>
          ''Error: Could not contact Ollama model '' @ [CHR 0x27] @ agent_model r @ [CHR 0x27]
            @ ''. '' @ e)"

text \<open>
  The record that \<^verbatim>\<open>reason_and_act\<close> returns, with the instruction it sent as the payload
  of its request; the wall-clock duration is left out.
\<close>

record invocation =
  agent :: string
  role_of :: role
  model :: string
  prompt_sent :: string
  response_text :: string
  reasoning_hash :: string

text \<open>
  \<^verbatim>\<open>reason_and_act\<close> is a coroutine that is suspended once, at the request. Up to there it
  renders the instruction and computes the fragment hash; resumed with the answer, it folds
  the answer into the state that is current then and returns its record.
\<close>

definition begin_task :: "pylib \<Rightarrow> role \<Rightarrow> string \<Rightarrow> string \<Rightarrow> project_state \<Rightarrow> string \<times> string" where
  "begin_task lib r prompt origin_hash st =
     (let meta_prompt = create_meta_prompt lib r prompt st;
          fragment_hash = rehash_fragment lib origin_hash (agent_name r) meta_prompt
      in (meta_prompt, fragment_hash))"

definition end_task :: "role \<Rightarrow> reply \<Rightarrow> string \<times> string \<Rightarrow> project_state
    \<Rightarrow> (project_state \<times> invocation) option" where
  "end_task r answer started st =
     (let text = response_text_of r answer in
      case process_output r text st of
        None \<Rightarrow> None
      | Some st' \<Rightarrow>
          Some (st', \<lparr> agent = agent_name r, role_of = r, model = agent_model r,
                       prompt_sent = fst started, response_text = text,
                       reasoning_hash = snd started \<rparr>))"

text \<open>A call that is awaited alone runs both halves on the same state.\<close>

definition reason_and_act :: "pylib \<Rightarrow> role \<Rightarrow> reply \<Rightarrow> string \<Rightarrow> string \<Rightarrow> project_state
    \<Rightarrow> (project_state \<times> invocation) option" where
  "reason_and_act lib r answer prompt origin_hash st =
     end_task r answer (begin_task lib r prompt origin_hash st) st"

text \<open>
  \<^verbatim>\<open>asyncio.gather\<close> starts every task before it resumes any: all instructions of a fan-out
  are rendered from the state the fan-out starts in, and all fragment hashes from the one
  origin passed to the tasks. The answers are folded one after the other, here in the order
  of the task list, which is also the order of the returned records.
\<close>

fun finish_tasks :: "(role \<times> reply \<times> string \<times> string) list \<Rightarrow> project_state
    \<Rightarrow> (project_state \<times> invocation list) option" where
  "finish_tasks [] st = Some (st, [])"
| "finish_tasks ((r, answer, started) # tasks) st =
     (case end_task r answer started st of
        None \<Rightarrow> None
      | Some (st', res) \<Rightarrow>
          (case finish_tasks tasks st' of
             None \<Rightarrow> None
           | Some (st'', results) \<Rightarrow> Some (st'', res # results)))"

definition gather :: "pylib \<Rightarrow> (role \<Rightarrow> reply) \<Rightarrow> role list \<Rightarrow> string \<Rightarrow> string \<Rightarrow> project_state
    \<Rightarrow> (project_state \<times> invocation list) option" where
  "gather lib answers tasks prompt origin_hash st =
     finish_tasks (map (\<lambda>r. (r, answers r, begin_task lib r prompt origin_hash st)) tasks) st"

section \<open>The orchestration loop\<close>

definition max_cycles :: nat where
  "max_cycles = 10"

text \<open>The tasks that the engine adds to \<^verbatim>\<open>tasks_to_run\<close> for an action.\<close>

definition tasks_for :: "string \<Rightarrow> project_state \<Rightarrow> role list" where
  "tasks_for action st =
     (if action = ''PLAN'' then [Wave, Loop, Line, Coin]
      else if action = ''EXECUTE'' then [Core]
      else if action = ''VALIDATE'' then
        (if get_or (last_chunk_id st) [] \<noteq> [] then [Work] else [])
      else if action = ''REFINE'' then [Loop]
      else if action = ''COMPOSE'' then [Code]
      else [])"

text \<open>
  One pass through the body of the \<^verbatim>\<open>for\<close> loop: the state and chain head it leaves, the
  records of the roles it ran in the order the engine reads them, and whether it left the
  loop by \<^verbatim>\<open>break\<close>. Writing the snapshot file does not change the state.
\<close>

record cycle_result =
  next_state :: project_state
  next_hash :: string
  invocations :: "invocation list"
  stop :: bool

definition run_cycle :: "pylib \<Rightarrow> (role \<Rightarrow> reply) \<Rightarrow> string \<Rightarrow> string \<Rightarrow> project_state
    \<Rightarrow> cycle_result option" where
  "run_cycle lib answers initial_prompt current_hash shared_state =
     (let current_entropy_score = calculate_entropy shared_state;
          st1 = shared_state\<lparr>current_entropy_score := Some current_entropy_score\<rparr>
      in case reason_and_act lib Cube (answers Cube) initial_prompt current_hash st1 of
           None \<Rightarrow> None
         | Some (st2, cube_result) \<Rightarrow>
             (let cube_hash = reasoning_hash cube_result;
                  action = get_or (current_action st2) ''PLAN''
              in if action = ''COMPLETE''
                 then Some \<lparr> next_state = st2, next_hash = cube_hash,
                              invocations = [cube_result], stop = True \<rparr>
                 else
                   (let tasks_to_run = tasks_for action st2
                    in if tasks_to_run = []
                       then Some \<lparr> next_state = st2, next_hash = cube_hash,
                                    invocations = [cube_result], stop = False \<rparr>
                       else
                         (case gather lib answers tasks_to_run initial_prompt cube_hash st2 of
                            None \<Rightarrow> None
                          | Some (st3, results) \<Rightarrow>
                              Some \<lparr> next_state = st3,
                                     next_hash = foldl (\<lambda>h res. reasoning_hash res) cube_hash results,
                                     invocations = cube_result # results,
                                     stop = False \<rparr>))))"

text \<open>
  The \<^verbatim>\<open>for\<close> loop over the cycle numbers, and what the run leaves behind: the records of
  all invocations in the order the engine read them, the number of cycles entered, and
  whether the loop was left by \<^verbatim>\<open>break\<close>.
\<close>

record run_result =
  final_state :: project_state
  chain_head :: string
  results :: "invocation list"
  completed :: bool
  cycles_run :: nat

fun run_cycles :: "pylib \<Rightarrow> (nat \<Rightarrow> role \<Rightarrow> reply) \<Rightarrow> string \<Rightarrow> nat list \<Rightarrow> string
    \<Rightarrow> project_state \<Rightarrow> run_result option" where
  "run_cycles lib answers initial_prompt [] current_hash shared_state =
     Some \<lparr> final_state = shared_state, chain_head = current_hash, results = [],
            completed = False, cycles_run = 0 \<rparr>"
| "run_cycles lib answers initial_prompt (cycle # rest) current_hash shared_state =
     (case run_cycle lib (answers cycle) initial_prompt current_hash shared_state of
        None \<Rightarrow> None
      | Some c \<Rightarrow>
          if stop c
          then Some \<lparr> final_state = next_state c, chain_head = next_hash c,
                       results = invocations c, completed = True, cycles_run = 1 \<rparr>
          else
            (case run_cycles lib answers initial_prompt rest (next_hash c) (next_state c) of
               None \<Rightarrow> None
             | Some r \<Rightarrow>
                 Some (r\<lparr> results := invocations c @ results r,
                          cycles_run := Suc (cycles_run r) \<rparr>)))"

definition run_orchestration :: "pylib \<Rightarrow> (nat \<Rightarrow> role \<Rightarrow> reply) \<Rightarrow> string \<Rightarrow> run_result option" where
  "run_orchestration lib answers initial_prompt =
     (let genesis_hash = create_genesis_hash lib initial_prompt
      in run_cycles lib answers initial_prompt [1 ..< max_cycles + 1] genesis_hash initial_state)"


text \<open>
  The chain as the specification words it: every record's fingerprint is the digest of the
  fingerprint before it in the chain, the role's name and the instruction the role sent.
\<close>

fun chain_linked :: "pylib \<Rightarrow> string \<Rightarrow> invocation list \<Rightarrow> bool" where
  "chain_linked lib previous [] = True"
| "chain_linked lib previous (x # xs) =
     (reasoning_hash x = rehash_fragment lib previous (agent x) (prompt_sent x)
      \<and> chain_linked lib (reasoning_hash x) xs)"

text \<open>
  The chain as the engine builds it: the decision-maker's fingerprint is the digest over the
  fingerprint before it in the chain; the fingerprint of any other role is the digest over
  the fingerprint of the latest decision-maker record.
\<close>

fun origin_linked :: "pylib \<Rightarrow> string \<Rightarrow> string \<Rightarrow> invocation list \<Rightarrow> bool" where
  "origin_linked lib previous decision [] = True"
| "origin_linked lib previous decision (x # xs) =
     (if role_of x = Cube
      then reasoning_hash x = rehash_fragment lib previous (agent x) (prompt_sent x)
           \<and> origin_linked lib (reasoning_hash x) (reasoning_hash x) xs
      else reasoning_hash x = rehash_fragment lib decision (agent x) (prompt_sent x)
           \<and> origin_linked lib (reasoning_hash x) decision xs)"

text \<open>A library whose digest is the identity, and an inference service for a two-cycle run.\<close>

definition plain_lib :: pylib where
  "plain_lib =
     \<lparr> sha256_hex = (\<lambda>s. s), json_dumps_dict = (\<lambda>d. concat (map fst d)),
       json_dumps_state = (\<lambda>st. []), format_list = concat, format_2f = (\<lambda>x. []) \<rparr>"

definition plan_then_complete :: "nat \<Rightarrow> role \<Rightarrow> reply" where
  "plan_then_complete cycle r =
     (if r = Cube then (if cycle = 1 then Response (Some ''PLAN'') else Response (Some ''COMPLETE''))
      else Response (Some ''ok''))"

text \<open>
  The record that the invocation of a role returns when it is started in state \<open>st\<close> with
  the origin \<open>origin_hash\<close>.
\<close>

definition record_of :: "pylib \<Rightarrow> role \<Rightarrow> reply \<Rightarrow> string \<Rightarrow> string \<Rightarrow> project_state \<Rightarrow> invocation" where
  "record_of lib r answer prompt origin_hash st =
     \<lparr> agent = agent_name r, role_of = r, model = agent_model r,
       prompt_sent = create_meta_prompt lib r prompt st,
       response_text = response_text_of r answer,
       reasoning_hash =
         rehash_fragment lib origin_hash (agent_name r) (create_meta_prompt lib r prompt st) \<rparr>"

text \<open>The specification's chain, for a whole run.\<close>

definition chain_of_run_linked :: "pylib \<Rightarrow> (nat \<Rightarrow> role \<Rightarrow> reply) \<Rightarrow> string \<Rightarrow> bool" where
  "chain_of_run_linked lib answers prompt =
     (case run_orchestration lib answers prompt of
        None \<Rightarrow> False
      | Some r \<Rightarrow> chain_linked lib (create_genesis_hash lib prompt) (results r))"

section \<open>Library facts\<close>





lemma upper_lower_action: "a \<in> set valid_actions \<Longrightarrow> upper (lower a) = a"
  unfolding valid_actions_def
  by (auto simp: upper_def lower_def upper_char_def lower_char_def lower_letters_def upper_letters_def)



lemma dict_get_set_same: "dict_get (dict_set k v d) k = Some v"
  by (induction d) (auto simp: dict_get_def)

lemma dict_get_set_other: "k' \<noteq> k \<Longrightarrow> dict_get (dict_set k v d) k' = dict_get d k'"
  by (induction d) (auto simp: dict_get_def)

lemma dict_keys_set: "set (dict_keys (dict_set k v d)) = insert k (set (dict_keys d))"
proof (induction d)
  case Nil
  show ?case by (simp add: dict_keys_def)
next
  case (Cons p d)
  obtain k' v' where p: "p = (k', v')" by (cases p)
  from Cons show ?case unfolding p dict_keys_def by (cases "k' = k") auto
qed

section \<open>The decision-maker's fold\<close>



section \<open>The code-checker's fold\<close>




text \<open>
  Claim C9. When \<open>last_chunk_id\<close> is set to a non-empty id, an output that starts with
  \<open>VALID\<close> is recorded as exactly \<open>VALID\<close> under that id and nothing else changes; any
  other output is recorded as \<open>INVALID - \<close> followed by the whole output, and \<open>advice\<close> is
  overwritten.
\<close>

theorem work_fold_classifies_by_prefix:
  assumes "last_chunk_id st = Some cid" and "cid \<noteq> []"
  shows "(startswith ''VALID'' output \<longrightarrow>
            Work_process_output output st =
              st\<lparr>validations := Some (dict_set cid ''VALID'' (get_or (validations st) []))\<rparr>
            \<and> (\<exists>vals. validations (Work_process_output output st) = Some vals
                     \<and> dict_get vals cid = Some ''VALID''))
       \<and> (\<not> startswith ''VALID'' output \<longrightarrow>
            Work_process_output output st =
              st\<lparr>validations := Some (dict_set cid (''INVALID - '' @ output) (get_or (validations st) [])),
                 advice := Some (''Validation failed for '' @ cid @ '': '' @ output)\<rparr>
            \<and> (\<exists>vals. validations (Work_process_output output st) = Some vals
                     \<and> dict_get vals cid = Some (''INVALID - '' @ output))
            \<and> advice (Work_process_output output st)
                = Some (''Validation failed for '' @ cid @ '': '' @ output))"
  using assms by (auto simp: Work_process_output_def Let_def dict_get_set_same)


theorem work_fold_classifies_by_prefix_witness:
  "last_chunk_id (initial_state\<lparr>last_chunk_id := Some ''chunk_1''\<rparr>) = Some ''chunk_1''
   \<and> ''chunk_1'' \<noteq> []
   \<and> startswith ''VALID'' ''VALIDATION FAILED''
   \<and> Work_process_output ''VALIDATION FAILED'' (initial_state\<lparr>last_chunk_id := Some ''chunk_1''\<rparr>)
       = initial_state\<lparr>last_chunk_id := Some ''chunk_1'',
                         validations := Some [(''chunk_1'', ''VALID'')]\<rparr>
   \<and> \<not> startswith ''VALID'' ''banana''
   \<and> Work_process_output ''banana'' (initial_state\<lparr>last_chunk_id := Some ''chunk_1''\<rparr>)
       = initial_state\<lparr>last_chunk_id := Some ''chunk_1'',
                         validations := Some [(''chunk_1'', ''INVALID - banana'')],
                         advice := Some ''Validation failed for chunk_1: banana''\<rparr>"
proof -
  have 1: "last_chunk_id (initial_state\<lparr>last_chunk_id := Some ''chunk_1''\<rparr>) = Some ''chunk_1''"
    by simp
  have 2: "''chunk_1'' \<noteq> []" by simp
  have 3: "startswith ''VALID'' ''VALIDATION FAILED''" by simp
  have 4: "\<not> startswith ''VALID'' ''banana''" by simp
  have 5: "get_or (validations (initial_state\<lparr>last_chunk_id := Some ''chunk_1''\<rparr>)) [] = []"
    by (simp add: initial_state_def get_or_def)
  from work_fold_classifies_by_prefix [OF 1 2, of "''VALIDATION FAILED''"] 3 5
  have 6: "Work_process_output ''VALIDATION FAILED'' (initial_state\<lparr>last_chunk_id := Some ''chunk_1''\<rparr>)
       = initial_state\<lparr>last_chunk_id := Some ''chunk_1'',
                         validations := Some [(''chunk_1'', ''VALID'')]\<rparr>"
    by simp
  from work_fold_classifies_by_prefix [OF 1 2, of "''banana''"] 4 5
  have 7: "Work_process_output ''banana'' (initial_state\<lparr>last_chunk_id := Some ''chunk_1''\<rparr>)
       = initial_state\<lparr>last_chunk_id := Some ''chunk_1'',
                         validations := Some [(''chunk_1'', ''INVALID - banana'')],
                         advice := Some ''Validation failed for chunk_1: banana''\<rparr>"
    by simp
  from 1 2 3 4 6 7 show ?thesis by blast
qed

section \<open>Fenced output\<close>

lemma split_at_not_Nil: "split_at sep s \<noteq> []"
  by (induction s) (subst split_at.simps, simp split: list.splits)+

lemma split_at_Nil: "sep \<noteq> [] \<Longrightarrow> split_at sep [] = [[]]"
  by (subst split_at.simps) (cases sep; simp)

lemma split_at_Cons:
  "sep \<noteq> [] \<Longrightarrow> split_at sep (c # cs) =
     (if startswith sep (c # cs) then [] # split_at sep (drop (length sep) (c # cs))
      else (c # hd (split_at sep cs)) # tl (split_at sep cs))"
  using split_at_not_Nil [of sep cs]
  by (subst split_at.simps) (simp split: list.splits)

lemma hd_split_at: "sep \<noteq> [] \<Longrightarrow> hd (split_at sep s) = before_first sep s"
  by (induction s) (simp_all add: split_at_Nil split_at_Cons)

lemma split_at_contains:
  "sep \<noteq> [] \<Longrightarrow> contains sep s \<Longrightarrow>
     split_at sep s = before_first sep s # split_at sep (after_first sep s)"
proof (induction s)
  case Nil
  then show ?case by simp
next
  case (Cons c cs)
  show ?case
  proof (cases "startswith sep (c # cs)")
    case True
    with Cons.prems show ?thesis by (simp add: split_at_Cons)
  next
    case False
    with Cons.prems have "contains sep cs" by simp
    with Cons have "split_at sep cs = before_first sep cs # split_at sep (after_first sep cs)"
      by simp
    with False Cons.prems show ?thesis by (simp add: split_at_Cons)
  qed
qed

lemma split_at_second:
  assumes "sep \<noteq> []" "contains sep s"
  shows "py_index (split_at sep s) 1 = Some (before_first sep (after_first sep s))"
proof -
  have "split_at sep (after_first sep s) \<noteq> []" by (rule split_at_not_Nil)
  then obtain p ps where "split_at sep (after_first sep s) = p # ps"
    by (cases "split_at sep (after_first sep s)") auto
  moreover from this have "p = before_first sep (after_first sep s)"
    using hd_split_at [OF assms(1), of "after_first sep s"] by simp
  ultimately show ?thesis
    using split_at_contains [OF assms] by (simp add: py_index_def)
qed

lemma split_at_first:
  assumes "sep \<noteq> []"
  shows "py_index (split_at sep s) 0 = Some (before_first sep s)"
proof -
  obtain p ps where "split_at sep s = p # ps"
    using split_at_not_Nil [of sep s] by (cases "split_at sep s") auto
  then show ?thesis using hd_split_at [OF assms, of s] by (simp add: py_index_def)
qed

lemma fenced_text_eq:
  assumes "contains fence_open output"
  shows "fenced_text output = Some (fenced_piece output)"
proof -
  have o: "fence_open \<noteq> []" and c: "fence_close \<noteq> []"
    by (simp_all add: fence_open_def fence_close_def)
  show ?thesis
    using split_at_second [OF o assms] split_at_first [OF c] o c
    by (simp add: fenced_text_def py_split_def fenced_piece_def)
qed

lemma startswith_prefix: "startswith (p @ q) s \<Longrightarrow> startswith p s"
  by (induction p s rule: startswith.induct) auto

lemma contains_prefix: "contains (p @ q) s \<Longrightarrow> contains p s"
  by (induction s) (auto dest: startswith_prefix)

lemma before_first_absent: "\<not> contains sep s \<Longrightarrow> before_first sep s = s"
  by (induction s) auto

lemma fence_open_close: "fence_open = fence_close @ ''python''"
  by (simp add: fence_open_def fence_close_def)

lemma unterminated_fence:
  assumes "\<not> contains fence_close t"
  shows "before_first fence_close (before_first fence_open t) = t"
proof -
  from assms have "\<not> contains fence_open t"
    using contains_prefix [of fence_close "''python''" t] by (auto simp: fence_open_close)
  with assms show ?thesis by (simp add: before_first_absent)
qed

text \<open>
  Claim C10, as stated, fails twice. The extracted text is stripped, so it is not the text
  between the fences when that text has white space at an end; and the output is first cut
  at the next opening marker, so that in \<open>```python`````python\<close> the two backquotes before
  the second marker are extracted although a closing fence follows the first marker at once.
\<close>

theorem fence_extraction_counterexample:
  "contains fence_open ''```python x''
   \<and> Code_process_output ''```python x'' initial_state
       = Some (initial_state\<lparr>final_script := Some ''x''\<rparr>)
   \<and> text_between_fences ''```python x'' = '' x''
   \<and> Code_process_output ''```python x'' initial_state
       \<noteq> Some (initial_state\<lparr>final_script := Some (text_between_fences ''```python x'')\<rparr>)
   \<and> contains fence_open ''```python`````python''
   \<and> Code_process_output ''```python`````python'' initial_state
       = Some (initial_state\<lparr>final_script := Some ''``''\<rparr>)
   \<and> text_between_fences ''```python`````python'' = []
   \<and> Code_process_output ''```python`````python'' initial_state
       \<noteq> Some (initial_state\<lparr>final_script :=
                                   Some (strip (text_between_fences ''```python`````python''))\<rparr>)"
  by (simp add: Code_process_output_def fenced_text_eq fenced_piece_def text_between_fences_def
      fence_open_def fence_close_def strip_def is_space_def initial_state_def)

text \<open>
  Claim C10, amended. For every output that contains the opening marker, the code-producer
  and the assembler extract the text after the first opening marker up to the next opening
  marker (or the end), cut at the first closing fence inside that piece, with the white space
  at both ends stripped; the code-producer appends it as the next chunk and the assembler
  writes it to \<open>final_script\<close>. If no closing fence follows the opening marker, the whole
  remainder, stripped, is extracted and stored: an unterminated fence is accepted.
\<close>

theorem fence_extraction:
  assumes "contains fence_open output"
  shows "fenced_text output = Some (fenced_piece output)
       \<and> Core_process_output output st =
           Some (st\<lparr>code_chunks :=
                      Some (dict_set (''chunk_'' @ str_nat (length (get_or (code_chunks st) []) + 1))
                              (fenced_piece output) (get_or (code_chunks st) [])),
                    last_chunk_id :=
                      Some (''chunk_'' @ str_nat (length (get_or (code_chunks st) []) + 1))\<rparr>)
       \<and> Code_process_output output st = Some (st\<lparr>final_script := Some (fenced_piece output)\<rparr>)
       \<and> (\<not> contains fence_close (after_first fence_open output) \<longrightarrow>
             fenced_piece output = strip (after_first fence_open output))"
  using assms
  by (simp add: Core_process_output_def Code_process_output_def fenced_text_eq Let_def
      fenced_piece_def unterminated_fence)

theorem fence_extraction_witness:
  "contains fence_open ''x = 0 ```python y = 1''
   \<and> \<not> contains fence_close (after_first fence_open ''x = 0 ```python y = 1'')
   \<and> Core_process_output ''x = 0 ```python y = 1'' initial_state =
        Some (initial_state\<lparr>code_chunks := Some [(''chunk_1'', ''y = 1'')],
                             last_chunk_id := Some ''chunk_1''\<rparr>)
   \<and> Code_process_output ''x = 0 ```python y = 1'' initial_state =
        Some (initial_state\<lparr>final_script := Some ''y = 1''\<rparr>)"
proof -
  have 1: "contains fence_open ''x = 0 ```python y = 1''"
    by (simp add: fence_open_def)
  have 2: "\<not> contains fence_close (after_first fence_open ''x = 0 ```python y = 1'')"
    by (simp add: fence_open_def fence_close_def)
  have 3: "strip (after_first fence_open ''x = 0 ```python y = 1'') = ''y = 1''"
    by (simp add: fence_open_def strip_def is_space_def)
  have 4: "get_or (code_chunks initial_state) [] = []"
    by (simp add: initial_state_def get_or_def)
  have 5: "str_nat (Suc 0) = ''1''"
    by (subst str_nat.simps) (simp add: digit_char_def)
  from fence_extraction [OF 1, of initial_state] 2 3 4 5 1 show ?thesis
    by simp
qed

section \<open>Validated ids are chunk ids\<close>

lemma get_or_Some: "get_or (Some x) d = x"
  by (simp add: get_or_def)

lemma get_or_None: "get_or None d = d"
  by (simp add: get_or_def)

lemma process_output_total: "\<exists>st'. process_output r out st = Some st'"
  by (cases r)
     (simp_all add: Core_process_output_def Code_process_output_def fenced_text_eq Let_def)

lemma chunk_refs_ok_frame:
  assumes "chunk_refs_ok st" and "validations st' = validations st"
    and "code_chunks st' = code_chunks st" and "last_chunk_id st' = last_chunk_id st"
  shows "chunk_refs_ok st'"
  using assms by (simp add: chunk_refs_ok_def validation_keys_def chunk_keys_def)

lemma chunk_refs_ok_Core:
  assumes "chunk_refs_ok st" and "Core_process_output out st = Some st'"
  shows "chunk_refs_ok st'"
proof (cases "contains fence_open out")
  case True
  with assms(2) have st': "st' =
      st\<lparr>code_chunks :=
            Some (dict_set (''chunk_'' @ str_nat (length (get_or (code_chunks st) []) + 1))
                    (fenced_piece out) (get_or (code_chunks st) [])),
          last_chunk_id :=
            Some (''chunk_'' @ str_nat (length (get_or (code_chunks st) []) + 1))\<rparr>"
    by (simp add: Core_process_output_def fenced_text_eq Let_def)
  from assms(1) show ?thesis
    unfolding st' chunk_refs_ok_def validation_keys_def chunk_keys_def
    by (auto simp: get_or_Some dict_keys_set)
next
  case False
  with assms show ?thesis by (simp add: Core_process_output_def)
qed

lemma chunk_refs_ok_Work:
  assumes "chunk_refs_ok st"
  shows "chunk_refs_ok (Work_process_output out st)"
proof (cases "last_chunk_id st")
  case None
  with assms show ?thesis
    by (cases "validations st")
       (simp_all add: chunk_refs_ok_def validation_keys_def chunk_keys_def
          Work_process_output_def get_or_Some get_or_None)
next
  case (Some cid)
  with assms have "cid \<in> chunk_keys st" by (simp add: chunk_refs_ok_def)
  with assms Some show ?thesis
    by (auto simp: chunk_refs_ok_def validation_keys_def chunk_keys_def
          Work_process_output_def Let_def get_or_Some dict_keys_set)
qed

lemma chunk_refs_ok_fold:
  assumes "chunk_refs_ok st" and "process_output r out st = Some st'"
  shows "chunk_refs_ok st'"
proof (cases r)
  case Core
  with assms show ?thesis by (simp add: chunk_refs_ok_Core)
next
  case Work
  with assms show ?thesis by (auto simp: chunk_refs_ok_Work)
next
  case Cube
  with assms have "st' = fst (Cube_process_output out st)" by simp
  then show ?thesis
    by (intro chunk_refs_ok_frame [OF assms(1)]) (simp_all add: Cube_process_output_def Let_def)
next
  case Wave
  with assms have "st' = Wave_process_output out st" by simp
  then show ?thesis
    by (intro chunk_refs_ok_frame [OF assms(1)]) (simp_all add: Wave_process_output_def)
next
  case Loop
  with assms have "st' = Loop_process_output out st" by simp
  then show ?thesis
    by (intro chunk_refs_ok_frame [OF assms(1)]) (simp_all add: Loop_process_output_def Let_def)
next
  case Code
  with assms have "Code_process_output out st = Some st'" by simp
  then show ?thesis
    by (intro chunk_refs_ok_frame [OF assms(1)])
       (auto simp: Code_process_output_def split: if_splits option.splits)
next
  case Line
  with assms have "st' = Line_process_output out st" by simp
  then show ?thesis
    by (intro chunk_refs_ok_frame [OF assms(1)]) (simp_all add: Line_process_output_def)
next
  case Coin
  with assms have "st' = Coin_process_output out st" by simp
  then show ?thesis
    by (intro chunk_refs_ok_frame [OF assms(1)]) (simp_all add: Coin_process_output_def)
qed

lemma apply_folds_invariant:
  "chunk_refs_ok st \<Longrightarrow> \<exists>st'. apply_folds steps st = Some st' \<and> chunk_refs_ok st'"
proof (induction steps arbitrary: st)
  case Nil
  then show ?case by simp
next
  case (Cons step steps)
  obtain r out where step: "step = (r, out)" by (cases step)
  obtain st1 where st1: "process_output r out st = Some st1"
    using process_output_total by blast
  with Cons.prems have "chunk_refs_ok st1" by (rule chunk_refs_ok_fold)
  then obtain st' where "apply_folds steps st1 = Some st'" "chunk_refs_ok st'"
    using Cons.IH by blast
  with step st1 show ?case by simp
qed

lemma chunk_refs_ok_initial: "chunk_refs_ok initial_state"
  by (simp add: chunk_refs_ok_def validation_keys_def chunk_keys_def initial_state_def
      get_or_def dict_keys_def)

section \<open>The entropy score\<close>

lemma round_half_even_int: "round_half_even (of_int n) = n"
  by (simp add: round_half_even_def)

lemma py_round2_tenths: "py_round2 (of_int n / 10) = of_int n / 10"
proof -
  have "(of_int n / 10 :: rat) * 100 = of_int (10 * n)" by simp
  have "round_half_even ((of_int n / 10 :: rat) * 100) = 10 * n"
    by (simp only: \<open>(of_int n / 10 :: rat) * 100 = of_int (10 * n)\<close> round_half_even_int)
  then show ?thesis by (simp add: py_round2_def)
qed

lemma tenths_add:
  assumes "\<exists>m::int. x = of_int m / 10" and "\<exists>n::int. y = of_int n / 10"
  shows "\<exists>k::int. x + y = (of_int k / 10 :: rat)"
proof -
  from assms obtain m n :: int where "x = of_int m / 10" "y = of_int n / 10" by blast
  then have "x + y = of_int (m + n) / 10" by (simp add: add_divide_distrib)
  then show ?thesis by blast
qed

lemma tenths_const: "\<exists>m::int. (numeral w / 10 :: rat) = of_int m / 10"
  by (rule exI [of _ "numeral w"]) simp

lemma tenths_zero: "\<exists>m::int. (0 :: rat) = of_int m / 10"
  by (rule exI [of _ 0]) simp

lemma tenths_one: "\<exists>m::int. (1 :: rat) = of_int m / 10"
  by (rule exI [of _ 10]) simp

lemma tenths_invalid: "\<exists>m::int. invalid_penalty st = of_int m / 10"
  by (rule exI [of _ "7 * int (invalid_chunks st)"]) (simp add: invalid_penalty_def)

text \<open>The unrounded score is a whole number of tenths, so rounding to hundredths keeps it.\<close>

lemma calculate_entropy_sum:
  "calculate_entropy st =
     integrity_penalty st + resource_penalty st + plan_penalty st
       + invalid_penalty st + criteria_penalty st + action_penalty st"
proof -
  have 1: "\<exists>n::int. integrity_penalty st = of_int n / 10"
    by (simp add: integrity_penalty_def Let_def tenths_const tenths_zero)
  have 2: "\<exists>n::int. resource_penalty st = of_int n / 10"
    by (simp add: resource_penalty_def Let_def tenths_const tenths_zero)
  have 3: "\<exists>n::int. plan_penalty st = of_int n / 10"
    by (simp add: plan_penalty_def Let_def tenths_one tenths_zero)
  have 5: "\<exists>n::int. criteria_penalty st = of_int n / 10"
    by (simp add: criteria_penalty_def Let_def tenths_const tenths_zero)
  have 6: "\<exists>n::int. action_penalty st = of_int n / 10"
    by (simp add: action_penalty_def Let_def tenths_const tenths_zero)
  obtain n :: int where
    "integrity_penalty st + resource_penalty st + plan_penalty st
       + invalid_penalty st + criteria_penalty st + action_penalty st = of_int n / 10"
    using tenths_add [OF tenths_add [OF tenths_add [OF tenths_add [OF tenths_add [OF 1 2] 3]
      tenths_invalid [of st]] 5] 6] by blast
  then show ?thesis by (simp only: calculate_entropy_def py_round2_tenths)
qed

lemma invalid_count_set:
  assumes "P v"
  shows "length (filter P (dict_values d)) \<le> length (filter P (dict_values (dict_set k v d)))
       \<and> (k \<notin> set (dict_keys d) \<longrightarrow>
            length (filter P (dict_values (dict_set k v d))) = Suc (length (filter P (dict_values d))))"
  using assms by (induction d) (auto simp: dict_values_def dict_keys_def)

lemma invalid_chunks_set:
  assumes "startswith ''INVALID'' v"
  shows "invalid_chunks st
           \<le> invalid_chunks (st\<lparr>validations := Some (dict_set k v (get_or (validations st) []))\<rparr>)"
    and "k \<notin> validation_keys st \<Longrightarrow>
         invalid_chunks (st\<lparr>validations := Some (dict_set k v (get_or (validations st) []))\<rparr>)
           = Suc (invalid_chunks st)"
  using invalid_count_set [of "startswith ''INVALID''" v "get_or (validations st) []" k] assms
  by (simp_all add: invalid_chunks_def get_or_Some validation_keys_def)

lemma other_penalties_validations [simp]:
  "integrity_penalty (st\<lparr>validations := x\<rparr>) = integrity_penalty st"
  "resource_penalty (st\<lparr>validations := x\<rparr>) = resource_penalty st"
  "plan_penalty (st\<lparr>validations := x\<rparr>) = plan_penalty st"
  "criteria_penalty (st\<lparr>validations := x\<rparr>) = criteria_penalty st"
  "action_penalty (st\<lparr>validations := x\<rparr>) = action_penalty st"
  by (simp_all add: integrity_penalty_def resource_penalty_def plan_penalty_def
      criteria_penalty_def action_penalty_def Let_def)

lemma other_penalties_plan [simp]:
  "integrity_penalty (st\<lparr>plan := x\<rparr>) = integrity_penalty st"
  "resource_penalty (st\<lparr>plan := x\<rparr>) = resource_penalty st"
  "invalid_penalty (st\<lparr>plan := x\<rparr>) = invalid_penalty st"
  "criteria_penalty (st\<lparr>plan := x\<rparr>) = criteria_penalty st"
  "action_penalty (st\<lparr>plan := x\<rparr>) = action_penalty st"
  by (simp_all add: integrity_penalty_def resource_penalty_def invalid_penalty_def
      invalid_chunks_def criteria_penalty_def action_penalty_def Let_def)

lemma other_penalties_integrity [simp]:
  "resource_penalty (st\<lparr>prompt_integrity := x\<rparr>) = resource_penalty st"
  "plan_penalty (st\<lparr>prompt_integrity := x\<rparr>) = plan_penalty st"
  "invalid_penalty (st\<lparr>prompt_integrity := x\<rparr>) = invalid_penalty st"
  "criteria_penalty (st\<lparr>prompt_integrity := x\<rparr>) = criteria_penalty st"
  "action_penalty (st\<lparr>prompt_integrity := x\<rparr>) = action_penalty st"
  by (simp_all add: resource_penalty_def plan_penalty_def invalid_penalty_def
      invalid_chunks_def criteria_penalty_def action_penalty_def Let_def)

text \<open>
  Claim C4. Writing one entry with an invalid verdict into \<open>validations\<close>, all other fields
  unchanged, never lowers the score, and raises it by 0.7 when the key is new; replacing a
  non-empty plan by the empty plan, all other fields unchanged, raises the score by exactly
  the plan-absence penalty 1.0.
\<close>

theorem entropy_monotone:
  "(startswith ''INVALID'' v \<longrightarrow>
      calculate_entropy st
        \<le> calculate_entropy (st\<lparr>validations := Some (dict_set k v (get_or (validations st) []))\<rparr>)
      \<and> (k \<notin> validation_keys st \<longrightarrow>
           calculate_entropy (st\<lparr>validations := Some (dict_set k v (get_or (validations st) []))\<rparr>)
             = calculate_entropy st + 7 / 10))
   \<and> (get_or (plan st) [] \<noteq> [] \<longrightarrow>
        calculate_entropy (st\<lparr>plan := Some []\<rparr>) = calculate_entropy st + 1
        \<and> calculate_entropy st < calculate_entropy (st\<lparr>plan := Some []\<rparr>))"
proof (intro conjI impI)
  assume v: "startswith ''INVALID'' v"
  from invalid_chunks_set(1) [OF v, of st k]
  have "invalid_penalty st
          \<le> invalid_penalty (st\<lparr>validations := Some (dict_set k v (get_or (validations st) []))\<rparr>)"
    by (simp add: invalid_penalty_def)
  then show "calculate_entropy st
        \<le> calculate_entropy (st\<lparr>validations := Some (dict_set k v (get_or (validations st) []))\<rparr>)"
    by (simp add: calculate_entropy_sum)
next
  assume v: "startswith ''INVALID'' v" and k: "k \<notin> validation_keys st"
  from invalid_chunks_set(2) [OF v k]
  have "invalid_penalty (st\<lparr>validations := Some (dict_set k v (get_or (validations st) []))\<rparr>)
          = invalid_penalty st + 7 / 10"
    by (simp add: invalid_penalty_def algebra_simps)
  then show "calculate_entropy (st\<lparr>validations := Some (dict_set k v (get_or (validations st) []))\<rparr>)
             = calculate_entropy st + 7 / 10"
    by (simp add: calculate_entropy_sum)
next
  assume p: "get_or (plan st) [] \<noteq> []"
  then have "plan_penalty (st\<lparr>plan := Some []\<rparr>) = plan_penalty st + 1"
    by (simp add: plan_penalty_def get_or_Some)
  then show e: "calculate_entropy (st\<lparr>plan := Some []\<rparr>) = calculate_entropy st + 1"
    by (simp add: calculate_entropy_sum)
  then show "calculate_entropy st < calculate_entropy (st\<lparr>plan := Some []\<rparr>)"
    by simp
qed

lemma calculate_entropy_planned:
  "calculate_entropy (initial_state\<lparr>plan := Some ''p''\<rparr>) = 13 / 10"
  by (simp add: calculate_entropy_sum integrity_penalty_def resource_penalty_def plan_penalty_def
      invalid_penalty_def invalid_chunks_def criteria_penalty_def action_penalty_def
      initial_state_def get_or_def dict_values_def lower_def)

theorem entropy_monotone_witness:
  "startswith ''INVALID'' ''INVALID - x''
   \<and> ''chunk_1'' \<notin> validation_keys (initial_state\<lparr>plan := Some ''p''\<rparr>)
   \<and> calculate_entropy (initial_state\<lparr>plan := Some ''p''\<rparr>) = 13 / 10
   \<and> calculate_entropy (initial_state\<lparr>plan := Some ''p'',
                                        validations := Some [(''chunk_1'', ''INVALID - x'')]\<rparr>)
       = 2
   \<and> get_or (plan (initial_state\<lparr>plan := Some ''p''\<rparr>)) [] \<noteq> []
   \<and> calculate_entropy (initial_state\<lparr>plan := Some ''p'', plan := Some []\<rparr>) = 23 / 10"
proof -
  have 1: "startswith ''INVALID'' ''INVALID - x''" by simp
  have 2: "''chunk_1'' \<notin> validation_keys (initial_state\<lparr>plan := Some ''p''\<rparr>)"
    by (simp add: validation_keys_def initial_state_def get_or_def dict_keys_def)
  have 3: "get_or (plan (initial_state\<lparr>plan := Some ''p''\<rparr>)) [] \<noteq> []"
    by (simp add: get_or_def)
  have 4: "get_or (validations (initial_state\<lparr>plan := Some ''p''\<rparr>)) [] = []"
    by (simp add: initial_state_def get_or_def)
  from entropy_monotone [of "''INVALID - x''" "initial_state\<lparr>plan := Some ''p''\<rparr>" "''chunk_1''"]
    1 2 3 4 calculate_entropy_planned
  show ?thesis by simp
qed

text \<open>
  Claim C5, as stated, fails: the state a run starts from has no integrity report, and its
  score contains the integrity penalty 0.5; so does a state whose report is the empty string.
\<close>

theorem integrity_penalty_counterexample:
  "prompt_integrity initial_state = None
   \<and> integrity_penalty initial_state = 1 / 2
   \<and> integrity_penalty (initial_state\<lparr>prompt_integrity := Some []\<rparr>) = 1 / 2
   \<and> calculate_entropy initial_state = 23 / 10
   \<and> calculate_entropy (initial_state\<lparr>prompt_integrity := Some ''INTEGRITY OK''\<rparr>) = 18 / 10"
  by (simp add: calculate_entropy_sum integrity_penalty_def resource_penalty_def plan_penalty_def
      invalid_penalty_def invalid_chunks_def criteria_penalty_def action_penalty_def
      initial_state_def get_or_def dict_values_def lower_def)

text \<open>
  Claim C5, amended. The score of a state exceeds the score of the same state with the report
  \<open>INTEGRITY OK\<close> by the integrity penalty, which is 0.5 exactly when the report does not
  contain the marker \<open>INTEGRITY OK\<close> and 0 otherwise; a state with no report yet (field
  absent or empty) therefore does carry the penalty.
\<close>

theorem integrity_penalty_rule:
  "calculate_entropy st
     = calculate_entropy (st\<lparr>prompt_integrity := Some ''INTEGRITY OK''\<rparr>) + integrity_penalty st
   \<and> integrity_penalty st
       = (if contains ''INTEGRITY OK'' (get_or (prompt_integrity st) []) then 0 else 1 / 2)
   \<and> (prompt_integrity st = None \<or> prompt_integrity st = Some [] \<longrightarrow>
        integrity_penalty st = 1 / 2)"
proof -
  have "integrity_penalty (st\<lparr>prompt_integrity := Some ''INTEGRITY OK''\<rparr>) = 0"
    by (simp add: integrity_penalty_def get_or_Some)
  then have "calculate_entropy st
     = calculate_entropy (st\<lparr>prompt_integrity := Some ''INTEGRITY OK''\<rparr>) + integrity_penalty st"
    by (simp add: calculate_entropy_sum)
  moreover have "integrity_penalty st
       = (if contains ''INTEGRITY OK'' (get_or (prompt_integrity st) []) then 0 else 1 / 2)"
    by (simp add: integrity_penalty_def)
  moreover have "prompt_integrity st = None \<or> prompt_integrity st = Some [] \<longrightarrow>
        integrity_penalty st = 1 / 2"
    by (auto simp: integrity_penalty_def get_or_def)
  ultimately show ?thesis by blast
qed

theorem integrity_penalty_rule_witness:
  "(prompt_integrity initial_state = None \<or> prompt_integrity initial_state = Some [])
   \<and> integrity_penalty initial_state = 1 / 2
   \<and> calculate_entropy initial_state
       = calculate_entropy (initial_state\<lparr>prompt_integrity := Some ''INTEGRITY OK''\<rparr>) + 1 / 2"
proof -
  have 1: "prompt_integrity initial_state = None \<or> prompt_integrity initial_state = Some []"
    by (simp add: initial_state_def)
  from integrity_penalty_rule [of initial_state] 1
  have 2: "integrity_penalty initial_state = 1 / 2" by blast
  from integrity_penalty_rule [of initial_state] 2
  have 3: "calculate_entropy initial_state
       = calculate_entropy (initial_state\<lparr>prompt_integrity := Some ''INTEGRITY OK''\<rparr>) + 1 / 2"
    by simp
  from 1 2 3 show ?thesis by blast
qed

section \<open>The assembler's instruction\<close>

lemma validated_chunks_iff:
  "(k, v) \<in> set (validated_chunks st) \<longleftrightarrow>
     (k, v) \<in> set (get_or (code_chunks st) [])
     \<and> dict_get (get_or (validations st) []) k = Some ''VALID''"
  by (auto simp: validated_chunks_def)

lemma validated_chunks_idem:
  "validated_chunks (st\<lparr>code_chunks := Some (validated_chunks st)\<rparr>) = validated_chunks st"
  by (simp add: validated_chunks_def get_or_Some)

lemma Code_prompt_parts:
  "\<exists>head tail. Code_create_meta_prompt lib base_prompt st =
       head @ json_dumps_dict lib (validated_chunks st) @ tail"
proof (intro exI)
  show "Code_create_meta_prompt lib base_prompt st =
       (''You are 'code', the composer. Your task is to assemble the validated code chunks into a single, coherent, and executable Python script.\<newline>'' @ ''Validated Chunks:\<newline>'')
       @ json_dumps_dict lib (validated_chunks st)
       @ (''\<newline>'' @ ''Success Criteria: '' @ format_opt (success_criteria st) @ ''\<newline>'' @ ''Ensure all necessary imports are at the top. Add appropriate function definitions and a main execution block (e.g., `if __name__ == '' @ [CHR 0x22] @ ''__main__'' @ [CHR 0x22] @ '':`). Ensure correct indentation, logical flow, and order for a fully functional script.\<newline>'' @ ''Enclose the final script within ```python ... ```. Your output MUST contain ONLY the Python script, formatted strictly within ```python ... ``` tags, with no extra conversational text.\<newline>'')"
    by (simp add: Code_create_meta_prompt_def)
qed

text \<open>
  Claim C7. The chunks that the assembler's instruction carries are exactly the entries of
  \<open>code_chunks\<close> whose key has the verdict \<open>VALID\<close> in \<open>validations\<close>: a chunk with any other
  verdict, or with none, is not among them. The instruction is some fixed text around the
  JSON form of these entries, and it is the same text as for the state from which all other
  chunks have been removed.
\<close>

theorem assembler_uses_valid_chunks_only:
  "((k, v) \<in> set (validated_chunks st) \<longleftrightarrow>
       (k, v) \<in> set (get_or (code_chunks st) [])
       \<and> dict_get (get_or (validations st) []) k = Some ''VALID'')
   \<and> (dict_get (get_or (validations st) []) k \<noteq> Some ''VALID'' \<longrightarrow>
         (k, v) \<notin> set (validated_chunks st))
   \<and> (\<exists>head tail. create_meta_prompt lib Code base_prompt st =
         head @ json_dumps_dict lib (validated_chunks st) @ tail)
   \<and> create_meta_prompt lib Code base_prompt st =
       create_meta_prompt lib Code base_prompt (st\<lparr>code_chunks := Some (validated_chunks st)\<rparr>)"
proof (intro conjI)
  show "(k, v) \<in> set (validated_chunks st) \<longleftrightarrow>
       (k, v) \<in> set (get_or (code_chunks st) [])
       \<and> dict_get (get_or (validations st) []) k = Some ''VALID''"
    by (rule validated_chunks_iff)
  show "dict_get (get_or (validations st) []) k \<noteq> Some ''VALID'' \<longrightarrow>
         (k, v) \<notin> set (validated_chunks st)"
    by (simp add: validated_chunks_iff)
  show "\<exists>head tail. create_meta_prompt lib Code base_prompt st =
         head @ json_dumps_dict lib (validated_chunks st) @ tail"
    using Code_prompt_parts by simp
  show "create_meta_prompt lib Code base_prompt st =
       create_meta_prompt lib Code base_prompt (st\<lparr>code_chunks := Some (validated_chunks st)\<rparr>)"
    by (simp add: Code_create_meta_prompt_def validated_chunks_idem)
qed

theorem assembler_uses_valid_chunks_only_witness:
  "dict_get (get_or (validations three_chunks) []) ''chunk_2'' \<noteq> Some ''VALID''
   \<and> (''chunk_2'', ''b'') \<notin> set (validated_chunks three_chunks)
   \<and> dict_get (get_or (validations three_chunks) []) ''chunk_3'' \<noteq> Some ''VALID''
   \<and> (''chunk_3'', ''c'') \<notin> set (validated_chunks three_chunks)
   \<and> validated_chunks three_chunks = [(''chunk_1'', ''a'')]"
proof -
  have 2: "dict_get (get_or (validations three_chunks) []) ''chunk_2'' \<noteq> Some ''VALID''"
    by (simp add: three_chunks_def get_or_def dict_get_def)
  have 3: "dict_get (get_or (validations three_chunks) []) ''chunk_3'' \<noteq> Some ''VALID''"
    by (simp add: three_chunks_def get_or_def dict_get_def)
  have 4: "validated_chunks three_chunks = [(''chunk_1'', ''a'')]"
    by (simp add: validated_chunks_def three_chunks_def get_or_def dict_get_def)
  from assembler_uses_valid_chunks_only [of "''chunk_2''" "''b''" three_chunks] 2
  have 5: "(''chunk_2'', ''b'') \<notin> set (validated_chunks three_chunks)" by blast
  from assembler_uses_valid_chunks_only [of "''chunk_3''" "''c''" three_chunks] 3
  have 6: "(''chunk_3'', ''c'') \<notin> set (validated_chunks three_chunks)" by blast
  from 2 3 4 5 6 show ?thesis by blast
qed

section \<open>One cycle of the engine\<close>

lemma end_task_record:
  "\<exists>st'. process_output r (response_text_of r answer) st = Some st'
       \<and> end_task r answer (begin_task lib r prompt h st0) st
           = Some (st', record_of lib r answer prompt h st0)"
proof -
  obtain st' where "process_output r (response_text_of r answer) st = Some st'"
    using process_output_total by blast
  then show ?thesis
    by (simp add: end_task_def begin_task_def record_of_def Let_def)
qed

lemma finish_tasks_records:
  "\<exists>st'. apply_folds (map (\<lambda>r. (r, response_text_of r (answers r))) tasks) st = Some st'
       \<and> finish_tasks (map (\<lambda>r. (r, answers r, begin_task lib r prompt h st0)) tasks) st
           = Some (st', map (\<lambda>r. record_of lib r (answers r) prompt h st0) tasks)"
proof (induction tasks arbitrary: st)
  case Nil
  show ?case by simp
next
  case (Cons r tasks)
  obtain st1 where 1: "process_output r (response_text_of r (answers r)) st = Some st1"
    and 2: "end_task r (answers r) (begin_task lib r prompt h st0) st
           = Some (st1, record_of lib r (answers r) prompt h st0)"
    using end_task_record by blast
  obtain st' where
    "apply_folds (map (\<lambda>r. (r, response_text_of r (answers r))) tasks) st1 = Some st'"
    "finish_tasks (map (\<lambda>r. (r, answers r, begin_task lib r prompt h st0)) tasks) st1
       = Some (st', map (\<lambda>r. record_of lib r (answers r) prompt h st0) tasks)"
    using Cons.IH by blast
  with 1 2 show ?case by simp
qed

lemma gather_records:
  "\<exists>st'. apply_folds (map (\<lambda>r. (r, response_text_of r (answers r))) tasks) st = Some st'
       \<and> gather lib answers tasks prompt h st
           = Some (st', map (\<lambda>r. record_of lib r (answers r) prompt h st) tasks)"
  unfolding gather_def by (rule finish_tasks_records)

lemma foldl_reasoning_hash:
  "foldl (\<lambda>h res. reasoning_hash res) h0 rs = (if rs = [] then h0 else reasoning_hash (last rs))"
  by (induction rs arbitrary: h0) auto

lemma Cube_not_in_tasks: "Cube \<notin> set (tasks_for action st)"
  by (simp add: tasks_for_def)

text \<open>
  What one cycle does, for any state and chain head it starts from: the decision-maker is
  asked first, with the chain head as origin; every role of the fan-out is given the
  decision-maker's fingerprint as origin and renders from the state that the
  decision-maker's fold has left.
\<close>

lemma run_cycle_records:
  fixes lib answers prompt h st
  defines "st1 \<equiv> st\<lparr>current_entropy_score := Some (calculate_entropy st)\<rparr>"
  defines "cube \<equiv> record_of lib Cube (answers Cube) prompt h st1"
  defines "st2 \<equiv> fst (Cube_process_output (response_text_of Cube (answers Cube)) st1)"
  defines "action \<equiv> get_or (current_action st2) ''PLAN''"
  defines "tasks \<equiv> (if action = ''COMPLETE'' then [] else tasks_for action st2)"
  shows "\<exists>c. run_cycle lib answers prompt h st = Some c
           \<and> invocations c
               = cube # map (\<lambda>r. record_of lib r (answers r) prompt (reasoning_hash cube) st2) tasks
           \<and> next_hash c = reasoning_hash (last (invocations c))
           \<and> stop c = (action = ''COMPLETE'')
           \<and> apply_folds (map (\<lambda>r. (r, response_text_of r (answers r))) tasks) st2
               = Some (next_state c)"
proof -
  have ra: "reason_and_act lib Cube (answers Cube) prompt h st1 = Some (st2, cube)"
    by (simp add: reason_and_act_def end_task_def begin_task_def record_of_def Let_def
        st2_def cube_def)
  show ?thesis
  proof (cases "action = ''COMPLETE''")
    case True
    then show ?thesis
      using ra unfolding run_cycle_def
      by (simp add: Let_def st1_def [symmetric] action_def [symmetric] tasks_def)
  next
    case False
    show ?thesis
    proof (cases "tasks_for action st2 = []")
      case True
      with False show ?thesis
        using ra unfolding run_cycle_def
        by (simp add: Let_def st1_def [symmetric] action_def [symmetric] tasks_def)
    next
      case nonempty: False
      obtain st3 where
        f: "apply_folds (map (\<lambda>r. (r, response_text_of r (answers r))) (tasks_for action st2)) st2
              = Some st3"
        and g: "gather lib answers (tasks_for action st2) prompt (reasoning_hash cube) st2
              = Some (st3, map (\<lambda>r. record_of lib r (answers r) prompt (reasoning_hash cube) st2)
                             (tasks_for action st2))"
        using gather_records by blast
      from False nonempty ra f g show ?thesis
        unfolding run_cycle_def
        by (simp add: Let_def st1_def [symmetric] action_def [symmetric] tasks_def
            foldl_reasoning_hash last_map)
    qed
  qed
qed

section \<open>The whole run\<close>

lemma run_cycle_summary:
  "\<exists>c x recs. run_cycle lib answers prompt h st = Some c
     \<and> invocations c = x # recs
     \<and> role_of x = Cube
     \<and> reasoning_hash x = rehash_fragment lib h (agent x) (prompt_sent x)
     \<and> (\<forall>y \<in> set recs. role_of y \<noteq> Cube
           \<and> reasoning_hash y = rehash_fragment lib (reasoning_hash x) (agent y) (prompt_sent y))
     \<and> next_hash c = reasoning_hash (last (x # recs))
     \<and> (stop c \<longrightarrow> recs = [] \<and> current_action (next_state c) = Some ''COMPLETE'')"
proof -
  define st1 where "st1 = st\<lparr>current_entropy_score := Some (calculate_entropy st)\<rparr>"
  define cube where "cube = record_of lib Cube (answers Cube) prompt h st1"
  define st2 where "st2 = fst (Cube_process_output (response_text_of Cube (answers Cube)) st1)"
  define action where "action = get_or (current_action st2) ''PLAN''"
  define tasks where "tasks = (if action = ''COMPLETE'' then [] else tasks_for action st2)"
  define recs where
    "recs = map (\<lambda>r. record_of lib r (answers r) prompt (reasoning_hash cube) st2) tasks"
  obtain c where c: "run_cycle lib answers prompt h st = Some c"
    and inv: "invocations c = cube # recs"
    and nh: "next_hash c = reasoning_hash (last (invocations c))"
    and stop: "stop c = (action = ''COMPLETE'')"
    and folds: "apply_folds (map (\<lambda>r. (r, response_text_of r (answers r))) tasks) st2
                  = Some (next_state c)"
    using run_cycle_records [of lib answers prompt h st]
    unfolding st1_def cube_def st2_def action_def tasks_def recs_def by blast
  have cube: "role_of cube = Cube"
    "reasoning_hash cube = rehash_fragment lib h (agent cube) (prompt_sent cube)"
    by (simp_all add: cube_def record_of_def)
  have "Cube \<notin> set tasks"
    by (simp add: tasks_def Cube_not_in_tasks)
  then have recs: "\<forall>y \<in> set recs. role_of y \<noteq> Cube
           \<and> reasoning_hash y = rehash_fragment lib (reasoning_hash cube) (agent y) (prompt_sent y)"
    by (auto simp: recs_def record_of_def)
  have "stop c \<longrightarrow> recs = [] \<and> current_action (next_state c) = Some ''COMPLETE''"
  proof
    assume "stop c"
    with stop have a: "action = ''COMPLETE''" by simp
    then have t: "tasks = []" by (simp add: tasks_def)
    with folds have "next_state c = st2" by simp
    moreover from a have "current_action st2 = Some ''COMPLETE''"
      by (cases "current_action st2") (simp_all add: action_def get_or_def)
    ultimately show "recs = [] \<and> current_action (next_state c) = Some ''COMPLETE''"
      using t by (simp add: recs_def)
  qed
  with c inv nh cube recs show ?thesis by auto
qed

lemma run_cycles_shape:
  "\<exists>r. run_cycles lib answers prompt cs h st = Some r
     \<and> cycles_run r \<le> length cs
     \<and> length (filter (\<lambda>x. role_of x = Cube) (results r)) = cycles_run r
     \<and> (completed r \<longrightarrow> current_action (final_state r) = Some ''COMPLETE''
           \<and> results r \<noteq> [] \<and> role_of (last (results r)) = Cube)
     \<and> (\<not> completed r \<longrightarrow> cycles_run r = length cs)"
proof (induction cs arbitrary: h st)
  case Nil
  show ?case by simp
next
  case (Cons cycle cs)
  obtain c x recs where c: "run_cycle lib (answers cycle) prompt h st = Some c"
    and inv: "invocations c = x # recs" and x: "role_of x = Cube"
    and recs: "\<forall>y \<in> set recs. role_of y \<noteq> Cube"
    and stop: "stop c \<longrightarrow> recs = [] \<and> current_action (next_state c) = Some ''COMPLETE''"
    using run_cycle_summary [of lib "answers cycle" prompt h st] by blast
  from recs have none: "filter (\<lambda>x. role_of x = Cube) recs = []"
    by (simp add: filter_empty_conv)
  show ?case
  proof (cases "stop c")
    case True
    with c inv x stop show ?thesis by simp
  next
    case False
    obtain r where r: "run_cycles lib answers prompt cs (next_hash c) (next_state c) = Some r"
      and le: "cycles_run r \<le> length cs"
      and cnt: "length (filter (\<lambda>x. role_of x = Cube) (results r)) = cycles_run r"
      and fin: "completed r \<longrightarrow> current_action (final_state r) = Some ''COMPLETE''
           \<and> results r \<noteq> [] \<and> role_of (last (results r)) = Cube"
      and cap: "\<not> completed r \<longrightarrow> cycles_run r = length cs"
      using Cons.IH by blast
    from False c r inv x none le cnt fin cap show ?thesis by simp
  qed
qed



section \<open>The invariant along a run\<close>

lemma run_cycle_refs_ok:
  assumes "chunk_refs_ok st" and "run_cycle lib answers prompt h st = Some c"
  shows "chunk_refs_ok (next_state c)"
proof -
  define st1 where "st1 = st\<lparr>current_entropy_score := Some (calculate_entropy st)\<rparr>"
  define st2 where "st2 = fst (Cube_process_output (response_text_of Cube (answers Cube)) st1)"
  obtain tasks where folds:
    "apply_folds (map (\<lambda>r. (r, response_text_of r (answers r))) tasks) st2 = Some (next_state c)"
    using run_cycle_records [of lib answers prompt h st] assms(2)
    unfolding st1_def st2_def by auto
  have "chunk_refs_ok st1"
    unfolding st1_def by (rule chunk_refs_ok_frame [OF assms(1)]) simp_all
  moreover have "process_output Cube (response_text_of Cube (answers Cube)) st1 = Some st2"
    by (simp add: st2_def)
  ultimately have "chunk_refs_ok st2" by (rule chunk_refs_ok_fold)
  then show ?thesis
    using apply_folds_invariant [of st2 "map (\<lambda>r. (r, response_text_of r (answers r))) tasks"]
      folds by auto
qed

lemma run_cycles_refs_ok:
  assumes "chunk_refs_ok st" and "run_cycles lib answers prompt cs h st = Some r"
  shows "chunk_refs_ok (final_state r)"
  using assms
proof (induction cs arbitrary: h st r)
  case Nil
  then show ?case by auto
next
  case (Cons cycle cs)
  from Cons.prems(2) obtain c where c: "run_cycle lib (answers cycle) prompt h st = Some c"
    by (auto split: option.splits)
  with Cons.prems(1) have ok: "chunk_refs_ok (next_state c)" by (rule run_cycle_refs_ok)
  show ?case
  proof (cases "stop c")
    case True
    with c Cons.prems(2) ok show ?thesis by auto
  next
    case False
    with c Cons.prems(2) obtain r' where
      r': "run_cycles lib answers prompt cs (next_hash c) (next_state c) = Some r'"
      and r: "final_state r = final_state r'"
      by (auto split: option.splits)
    from Cons.IH [OF ok r'] r show ?thesis by simp
  qed
qed

text \<open>
  Claim C6. Every sequence of role folds, with any outputs, runs from the initial state to a
  state in which every key of \<open>validations\<close> is a key of \<open>code_chunks\<close>; and so is the state
  that any run of the engine ends in.
\<close>

theorem validation_keys_within_chunks:
  "(\<exists>st. apply_folds steps initial_state = Some st \<and> validation_keys st \<subseteq> chunk_keys st)
   \<and> (\<exists>r. run_orchestration lib answers prompt = Some r
          \<and> validation_keys (final_state r) \<subseteq> chunk_keys (final_state r))"
proof
  show "\<exists>st. apply_folds steps initial_state = Some st \<and> validation_keys st \<subseteq> chunk_keys st"
    using apply_folds_invariant [OF chunk_refs_ok_initial, of steps]
    by (auto simp: chunk_refs_ok_def)
next
  obtain r where r: "run_cycles lib answers prompt [1 ..< max_cycles + 1]
      (create_genesis_hash lib prompt) initial_state = Some r"
    using run_cycles_shape by blast
  with chunk_refs_ok_initial have "chunk_refs_ok (final_state r)"
    by (rule run_cycles_refs_ok)
  with r show "\<exists>r. run_orchestration lib answers prompt = Some r
          \<and> validation_keys (final_state r) \<subseteq> chunk_keys (final_state r)"
    by (simp add: run_orchestration_def chunk_refs_ok_def)
qed

section \<open>The fingerprint chain\<close>

lemma origin_linked_fanout:
  assumes "\<forall>y \<in> set recs. role_of y \<noteq> Cube
             \<and> reasoning_hash y = rehash_fragment lib d (agent y) (prompt_sent y)"
  shows "origin_linked lib p d (recs @ rest)
           = origin_linked lib (if recs = [] then p else reasoning_hash (last recs)) d rest"
  using assms by (induction recs arbitrary: p) auto

lemma origin_linked_decision:
  assumes "rest = [] \<or> role_of (hd rest) = Cube"
  shows "origin_linked lib p d rest = origin_linked lib p d' rest"
  using assms by (cases rest) auto

lemma run_cycles_linked:
  "\<exists>r. run_cycles lib answers prompt cs h st = Some r
     \<and> origin_linked lib h d (results r)
     \<and> (results r = [] \<or> role_of (hd (results r)) = Cube)
     \<and> chain_head r = (if results r = [] then h else reasoning_hash (last (results r)))"
proof (induction cs arbitrary: h st d)
  case Nil
  show ?case by simp
next
  case (Cons cycle cs)
  obtain c x recs where c: "run_cycle lib (answers cycle) prompt h st = Some c"
    and inv: "invocations c = x # recs" and x: "role_of x = Cube"
    and hx: "reasoning_hash x = rehash_fragment lib h (agent x) (prompt_sent x)"
    and recs: "\<forall>y \<in> set recs. role_of y \<noteq> Cube
           \<and> reasoning_hash y = rehash_fragment lib (reasoning_hash x) (agent y) (prompt_sent y)"
    and nh: "next_hash c = reasoning_hash (last (x # recs))"
    and stop: "stop c \<longrightarrow> recs = [] \<and> current_action (next_state c) = Some ''COMPLETE''"
    using run_cycle_summary [of lib "answers cycle" prompt h st] by blast
  show ?case
  proof (cases "stop c")
    case True
    with c inv x hx nh stop show ?thesis by simp
  next
    case False
    obtain r where r: "run_cycles lib answers prompt cs (next_hash c) (next_state c) = Some r"
      and link: "origin_linked lib (next_hash c) (reasoning_hash x) (results r)"
      and first: "results r = [] \<or> role_of (hd (results r)) = Cube"
      and head: "chain_head r
           = (if results r = [] then next_hash c else reasoning_hash (last (results r)))"
      using Cons.IH [of "next_hash c" "next_state c" "reasoning_hash x"] by blast
    have "origin_linked lib (reasoning_hash x) (reasoning_hash x) (recs @ results r)"
      using origin_linked_fanout [OF recs, of "reasoning_hash x" "results r"] link nh
      by (simp split: if_splits)
    with False c r inv x hx head nh show ?thesis by simp
  qed
qed

text \<open>
  The four folds of a \<open>PLAN\<close> fan-out write different keys, so the state they leave does
  not depend on the order in which the answers come in.
\<close>

lemma plan_folds_commute:
  assumes "r \<in> {Wave, Loop, Line, Coin}" and "r' \<in> {Wave, Loop, Line, Coin}" and "r \<noteq> r'"
  shows "apply_folds [(r, out), (r', out')] st = apply_folds [(r', out'), (r, out)] st"
  using assms
  by (auto simp: Wave_process_output_def Loop_process_output_def Line_process_output_def
      Coin_process_output_def Let_def)

lemma run_cycles_first:
  assumes "run_cycles lib answers prompt (cycle # cs) h st = Some r"
    and "run_cycle lib (answers cycle) prompt h st = Some c" and "\<not> stop c"
  shows "\<exists>rest. results r = invocations c @ rest"
  using assms by (auto split: option.splits)

lemma first_action_plan:
  "get_or (current_action (fst (Cube_process_output
      (response_text_of Cube (plan_then_complete 1 Cube)) st))) ''PLAN'' = ''PLAN''"
  by (simp add: plan_then_complete_def response_text_of_def get_or_def strip_def is_space_def
      Cube_process_output_def upper_def upper_char_def lower_letters_def upper_letters_def
      valid_actions_def)

text \<open>
  Claim C1, as stated, fails. In a run whose first decision is \<open>PLAN\<close>, with the identity
  as digest, the plan-advisor's record comes after the goal-definer's in the chain, but its
  fingerprint is the digest over the decision-maker's fingerprint, not over the
  goal-definer's.
\<close>

theorem chain_counterexample:
  "run_orchestration plain_lib plan_then_complete ''p'' \<noteq> None
   \<and> \<not> chain_of_run_linked plain_lib plan_then_complete ''p''"
proof -
  let ?g = "create_genesis_hash plain_lib ''p''"
  obtain r where r: "run_cycles plain_lib plan_then_complete ''p'' [1 ..< max_cycles + 1]
      ?g initial_state = Some r"
    using run_cycles_shape by blast
  have cycles: "[1 ..< max_cycles + 1] = 1 # [2 ..< max_cycles + 1]"
    by (simp add: max_cycles_def upt_conv_Cons)
  define st1 where
    "st1 = initial_state\<lparr>current_entropy_score := Some (calculate_entropy initial_state)\<rparr>"
  define cube where "cube = record_of plain_lib Cube (plan_then_complete 1 Cube) ''p'' ?g st1"
  define st2 where
    "st2 = fst (Cube_process_output (response_text_of Cube (plan_then_complete 1 Cube)) st1)"
  have action: "get_or (current_action st2) ''PLAN'' = ''PLAN''"
    unfolding st2_def by (rule first_action_plan)
  obtain c where c: "run_cycle plain_lib (plan_then_complete 1) ''p'' ?g initial_state = Some c"
    and inv: "invocations c =
        cube # map (\<lambda>r. record_of plain_lib r (plan_then_complete 1 r) ''p'' (reasoning_hash cube) st2)
                 (if get_or (current_action st2) ''PLAN'' = ''COMPLETE'' then []
                  else tasks_for (get_or (current_action st2) ''PLAN'') st2)"
    and stop: "stop c = (get_or (current_action st2) ''PLAN'' = ''COMPLETE'')"
    using run_cycle_records [of plain_lib "plan_then_complete 1" "''p''" ?g initial_state]
    unfolding st1_def cube_def st2_def by blast
  from stop action have go: "\<not> stop c" by simp
  define wave where
    "wave = record_of plain_lib Wave (plan_then_complete 1 Wave) ''p'' (reasoning_hash cube) st2"
  define loop where
    "loop = record_of plain_lib Loop (plan_then_complete 1 Loop) ''p'' (reasoning_hash cube) st2"
  from inv action obtain more where more: "invocations c = cube # wave # loop # more"
    by (simp add: tasks_for_def wave_def loop_def)
  from r c go obtain rest where "results r = invocations c @ rest"
    unfolding cycles using run_cycles_first by blast
  with more have res: "results r = cube # wave # loop # more @ rest" by simp
  have "reasoning_hash loop
          \<noteq> rehash_fragment plain_lib (reasoning_hash wave) (agent loop) (prompt_sent loop)"
    by (simp add: loop_def wave_def record_of_def rehash_fragment_def plain_lib_def)
  then have "\<not> chain_linked plain_lib ?g (results r)"
    unfolding res by simp
  with r show ?thesis
    by (simp add: chain_of_run_linked_def run_orchestration_def)
qed

text \<open>
  Claim C1, amended. Every fingerprint is the digest of an origin, the producing role's
  name and that role's rendered instruction. In every cycle the decision-maker's origin is
  the chain head it finds, and the origin of every role that runs after it in the cycle is
  the decision-maker's fingerprint of that cycle, with the instruction rendered from the
  state the decision-maker's fold has left; the fingerprint of the cycle's last record is the
  next chain head. Over a whole run, which starts at the genesis fingerprint, each
  decision-maker record is therefore linked to the record before it, and each other record
  to the latest decision-maker record.
\<close>

theorem chain_links_to_decision:
  "(\<exists>r. run_orchestration lib answers prompt = Some r
       \<and> origin_linked lib (create_genesis_hash lib prompt) (create_genesis_hash lib prompt)
            (results r)
       \<and> chain_head r = (if results r = [] then create_genesis_hash lib prompt
                          else reasoning_hash (last (results r))))
   \<and> (let st1 = st\<lparr>current_entropy_score := Some (calculate_entropy st)\<rparr>;
           cube = record_of lib Cube (cycle_answers Cube) prompt h st1;
           st2 = fst (Cube_process_output (response_text_of Cube (cycle_answers Cube)) st1);
           action = get_or (current_action st2) ''PLAN'';
           tasks = (if action = ''COMPLETE'' then [] else tasks_for action st2)
       in \<exists>c. run_cycle lib cycle_answers prompt h st = Some c
            \<and> invocations c
                = cube # map (\<lambda>r. record_of lib r (cycle_answers r) prompt (reasoning_hash cube) st2)
                           tasks
            \<and> next_hash c = reasoning_hash (last (invocations c)))"
proof
  show "\<exists>r. run_orchestration lib answers prompt = Some r
       \<and> origin_linked lib (create_genesis_hash lib prompt) (create_genesis_hash lib prompt)
            (results r)
       \<and> chain_head r = (if results r = [] then create_genesis_hash lib prompt
                          else reasoning_hash (last (results r)))"
    using run_cycles_linked [of lib answers prompt "[1 ..< max_cycles + 1]"
        "create_genesis_hash lib prompt" initial_state "create_genesis_hash lib prompt"]
    by (auto simp: run_orchestration_def)
next
  show "let st1 = st\<lparr>current_entropy_score := Some (calculate_entropy st)\<rparr>;
           cube = record_of lib Cube (cycle_answers Cube) prompt h st1;
           st2 = fst (Cube_process_output (response_text_of Cube (cycle_answers Cube)) st1);
           action = get_or (current_action st2) ''PLAN'';
           tasks = (if action = ''COMPLETE'' then [] else tasks_for action st2)
       in \<exists>c. run_cycle lib cycle_answers prompt h st = Some c
            \<and> invocations c
                = cube # map (\<lambda>r. record_of lib r (cycle_answers r) prompt (reasoning_hash cube) st2)
                           tasks
            \<and> next_hash c = reasoning_hash (last (invocations c))"
    using run_cycle_records [of lib cycle_answers prompt h st]
    unfolding Let_def by blast
qed

end
